theory Spec2Isabelle
  imports Complex_Main "HOL-Library.AList"
begin

section \<open>JavaScript values\<close>

text \<open>
  The plugin of \<^verbatim>\<open>lib/index.js\<close> works on untyped JavaScript values: the options
  object handed to \<^verbatim>\<open>register\<close>, the settings merged from it, the authentication
  result of a request. They are modelled by one datatype. A number is a finite
  JavaScript number (a rational; \<^verbatim>\<open>NaN\<close>, the infinities and the rounding of doubles
  are left out), a string is a list of characters, an object literal is the list of
  its own properties in insertion order, a function value is known by an identifier
  only.
\<close>

datatype jsvalue =
    Undefined
  | Null
  | Bool bool
  | Num rat
  | Str string
  | Buffer string
  | Func nat
  | Arr "jsvalue list"
  | Obj "(string \<times> jsvalue) list"

datatype error =
    ValidationError string
  | TypeError string
  | Error string

text \<open>\<^verbatim>\<open>!v\<close> is \<open>\<not> truthy v\<close>; \<^verbatim>\<open>a || b\<close> is \<open>js_or a b\<close>.\<close>

fun truthy :: "jsvalue \<Rightarrow> bool" where
  "truthy Undefined = False"
| "truthy Null = False"
| "truthy (Bool b) = b"
| "truthy (Num n) = (n \<noteq> 0)"
| "truthy (Str s) = (s \<noteq> [])"
| "truthy (Buffer b) = True"
| "truthy (Func f) = True"
| "truthy (Arr xs) = True"
| "truthy (Obj kvs) = True"

definition js_or :: "jsvalue \<Rightarrow> jsvalue \<Rightarrow> jsvalue" where
  "js_or a b = (if truthy a then a else b)"

text \<open>
  \<^verbatim>\<open>o.k\<close>: the value of a property, \<^verbatim>\<open>undefined\<close> when the object has none of that
  name. None of the property names read in \<^verbatim>\<open>lib/index.js\<close> exists on a primitive, an
  array, a buffer or a function, where the read gives \<^verbatim>\<open>undefined\<close> as well (on
  \<^verbatim>\<open>undefined\<close> and \<^verbatim>\<open>null\<close> JavaScript throws; the source reads properties of values it
  has tested to be truthy).
\<close>

fun get :: "jsvalue \<Rightarrow> string \<Rightarrow> jsvalue" where
  "get (Obj kvs) k = (case map_of kvs k of None \<Rightarrow> Undefined | Some v \<Rightarrow> v)"
| "get _ k = Undefined"

text \<open>\<^verbatim>\<open>o.k = v\<close> on an object: the property is replaced in place or appended.\<close>

fun put :: "jsvalue \<Rightarrow> string \<Rightarrow> jsvalue \<Rightarrow> jsvalue" where
  "put (Obj kvs) k v = Obj (AList.update k v kvs)"
| "put other k v = other"

fun is_object :: "jsvalue \<Rightarrow> bool" where
  "is_object (Obj kvs) = True"
| "is_object _ = False"

section \<open>The host server, as the plugin sees it\<close>

text \<open>
  A route as \<^verbatim>\<open>internals.auth\<close> registers it. The handler is a closure over the
  authentication \<^verbatim>\<open>config\<close>: the route keeps that object, and \<open>handler\<close> below is the
  body of the closure.
\<close>

record route =
  route_method :: jsvalue
  route_path :: jsvalue
  route_id :: jsvalue
  route_isInternal :: bool
  route_auth :: jsvalue
  route_handler_config :: jsvalue

text \<open>
  The functions that \<^verbatim>\<open>register\<close> hands to the server, by name: \<open>OnPreStart\<close> and
  \<open>OnPreStop\<close> stand for the closures \<open>onPreStart\<close> and \<open>onPreStop\<close> defined below, the
  others for the methods of \<^verbatim>\<open>lib/listener.js\<close> and for \<^verbatim>\<open>internals.socket\<close>.
\<close>

datatype plugin_function =
    OnPreStart
  | OnPreStop
  | Listener_broadcast
  | Listener_subscription
  | Listener_publish
  | Listener_eachSocket
  | Internals_socket

text \<open>
  The server records what the plugin asks of it: \<^verbatim>\<open>server.state(name, options)\<close>,
  \<^verbatim>\<open>server.route(route)\<close>, \<^verbatim>\<open>server.ext(event, hook)\<close> and
  \<^verbatim>\<open>server.decorate(type, name, function)\<close>, each in call order. The host's own checks
  of these calls (a route or a decoration defined twice) are outside this file.
\<close>

record 'c server =
  connections :: "'c list"
  states :: "(jsvalue \<times> jsvalue) list"
  routes :: "route list"
  exts :: "(string \<times> plugin_function) list"
  decorations :: "(string \<times> string \<times> plugin_function) list"

definition server_state :: "'c server \<Rightarrow> jsvalue \<Rightarrow> jsvalue \<Rightarrow> 'c server" where
  "server_state server name options = server\<lparr>states := states server @ [(name, options)]\<rparr>"

definition server_route :: "'c server \<Rightarrow> route \<Rightarrow> 'c server" where
  "server_route server r = server\<lparr>routes := routes server @ [r]\<rparr>"

definition server_ext :: "'c server \<Rightarrow> string \<Rightarrow> plugin_function \<Rightarrow> 'c server" where
  "server_ext server event hook = server\<lparr>exts := exts server @ [(event, hook)]\<rparr>"

definition server_decorate :: "'c server \<Rightarrow> string \<Rightarrow> string \<Rightarrow> plugin_function \<Rightarrow> 'c server" where
  "server_decorate server type name f = server\<lparr>decorations := decorations server @ [(type, name, f)]\<rparr>"

section \<open>The handshake endpoint\<close>

text \<open>
  \<^verbatim>\<open>Cryptiles.randomString(size)\<close>: the generator is a parameter, \<open>source k len\<close> being
  the string its \<open>k\<close>-th call returns; the state counts the calls made.
\<close>

definition randomString :: "(nat \<Rightarrow> nat \<Rightarrow> string) \<Rightarrow> nat \<Rightarrow> nat \<Rightarrow> string \<times> nat" where
  "randomString source len drawn = (source drawn len, Suc drawn)"

text \<open>
  The sealing library: \<^verbatim>\<open>Iron.seal(object, password, options, callback)\<close> calls back
  with an error (\<open>Inl\<close>) or with the sealed string (\<open>Inr\<close>); \<^verbatim>\<open>Iron.defaults\<close> are its
  default options.
\<close>

record iron =
  seal :: "jsvalue \<Rightarrow> jsvalue \<Rightarrow> jsvalue \<Rightarrow> error + string"
  defaults :: jsvalue

record auth_result =
  isAuthenticated :: bool
  credentials :: jsvalue
  artifacts :: jsvalue

record request =
  auth :: auth_result

text \<open>
  What a handler does, in order: a call of \<^verbatim>\<open>Iron.seal\<close> with its three arguments,
  \<^verbatim>\<open>reply(payload)\<close> with a value or an error, \<^verbatim>\<open>.state(name, value)\<close> on the response.
\<close>

datatype payload = Payload jsvalue | Failure error

datatype action =
    Seal jsvalue jsvalue jsvalue
  | Reply payload
  | State jsvalue jsvalue

text \<open>The handler of the route (lines 187 to 217), \<open>config\<close> being the captured object.\<close>

definition handler :: "iron \<Rightarrow> jsvalue \<Rightarrow> request \<Rightarrow> action list" where
  "handler Iron config request =
    (if \<not> isAuthenticated (auth request) then
       [Reply (Payload (Obj [(''status'', Str ''unauthenticated'')]))]
     else
       let credentials = Obj [(''credentials'', credentials (auth request)),
                              (''artifacts'', artifacts (auth request))] in
       if get config ''type'' = Str ''direct'' then
         [Reply (Payload credentials)]
       else
         let result = Obj [(''status'', Str ''authenticated'')] in
         if get config ''type'' = Str ''cookie'' then
           [Reply (Payload result), State (get config ''cookie'') credentials]
         else
           let password = get config ''password'';
               options = js_or (get config ''iron'') (defaults Iron) in
           Seal credentials password options #
             (case seal Iron credentials password options of
                Inl err \<Rightarrow> [Reply (Failure err)]
              | Inr sealed \<Rightarrow> [Reply (Payload (put result ''token'' (Str sealed)))]))"

text \<open>
  \<^verbatim>\<open>internals.auth(server, settings)\<close> (lines 152 to 220). It returns the server, the
  settings (whose \<^verbatim>\<open>auth\<close> object it may have given a password) and the count of
  random strings drawn. The file is in strict mode: giving a property to a truthy
  primitive throws a \<^verbatim>\<open>TypeError\<close>. An array, a buffer or a function never passes the
  schema as \<^verbatim>\<open>auth\<close>, and is refused here the same way.
\<close>

definition internals_auth ::
  "(nat \<Rightarrow> nat \<Rightarrow> string) \<Rightarrow> 'c server \<Rightarrow> jsvalue \<Rightarrow> nat \<Rightarrow> error + ('c server \<times> jsvalue \<times> nat)" where
  "internals_auth source server settings drawn =
    (let config = get settings ''auth'' in
     if \<not> truthy config then Inr (server, settings, drawn)
     else if \<not> is_object config then Inl (TypeError ''Cannot create property password'')
     else
       let (config, drawn) =
             (if get config ''type'' \<noteq> Str ''direct'' \<and> \<not> truthy (get config ''password'')
              then (case randomString source 32 drawn of
                      (s, drawn') \<Rightarrow> (put config ''password'' (Str s), drawn'))
              else (config, drawn));
           server =
             (if get config ''type'' = Str ''cookie'' then
                let cookieOptions = Obj [
                      (''isSecure'', get config ''isSecure''),
                      (''isHttpOnly'', get config ''isHttpOnly''),
                      (''path'', get config ''path''),
                      (''domain'', get config ''domain''),
                      (''ttl'', get config ''ttl''),
                      (''encoding'', Str ''iron''),
                      (''password'', get config ''password''),
                      (''iron'', get config ''iron'')]
                in server_state server (get config ''cookie'') cookieOptions
              else server);
           server = server_route server \<lparr>
             route_method = (if get config ''type'' = Str ''direct'' then Str ''auth'' else Str ''GET''),
             route_path = get config ''endpoint'',
             route_id = get config ''id'',
             route_isInternal = (get config ''type'' = Str ''direct''),
             route_auth = get config ''route'',
             route_handler_config = config\<rparr>
       in Inr (server, put settings ''auth'' config, drawn))"

section \<open>Hoek: merging the options onto the defaults\<close>

text \<open>
  \<^verbatim>\<open>Hoek.applyToDefaults\<close> and \<^verbatim>\<open>Hoek.merge\<close> belong to the \<^verbatim>\<open>hoek\<close> package; they are
  modelled from its documented behaviour. \<^verbatim>\<open>Hoek.clone\<close> is the identity on values.
\<close>

fun decimal :: "nat \<Rightarrow> string" where
  "decimal n = (if n < 10 then [char_of (48 + n)] else decimal (n div 10) @ [char_of (48 + n mod 10)])"

declare decimal.simps [simp del]

text \<open>\<^verbatim>\<open>Object.keys(o)\<close> with the values: a buffer has its indices as keys.\<close>

fun own_properties :: "jsvalue \<Rightarrow> (string \<times> jsvalue) list" where
  "own_properties (Obj kvs) = kvs"
| "own_properties (Buffer b) = map (\<lambda>i. (decimal i, Num (of_nat (of_char (b ! i) :: nat)))) [0 ..< length b]"
| "own_properties _ = []"

text \<open>
  \<^verbatim>\<open>Hoek.merge(target, source, isNullOverride, isMergeArrays)\<close> for an object \<open>target\<close>
  and the properties of \<open>source\<close>, key by key: an object or array value is merged into
  a target property of the same kind and replaces any other; a buffer replaces; \<^verbatim>\<open>null\<close>
  and \<^verbatim>\<open>undefined\<close> are written only when \<open>isNullOverride\<close> holds; every other value is
  written. (The targets here are parts of \<^verbatim>\<open>internals.defaults\<close>, which holds no buffer.)
\<close>

fun merge :: "(string \<times> jsvalue) list \<Rightarrow> (string \<times> jsvalue) list \<Rightarrow> bool \<Rightarrow> bool \<Rightarrow> (string \<times> jsvalue) list" where
  "merge target [] isNullOverride isMergeArrays = target"
| "merge target ((key, Obj sv) # source) isNullOverride isMergeArrays =
     merge (case map_of target key of
              Some (Obj tv) \<Rightarrow> AList.update key (Obj (merge tv sv isNullOverride isMergeArrays)) target
            | _ \<Rightarrow> AList.update key (Obj sv) target)
       source isNullOverride isMergeArrays"
| "merge target ((key, Arr xs) # source) isNullOverride isMergeArrays =
     merge (case map_of target key of
              Some (Arr ys) \<Rightarrow> AList.update key (Arr (if isMergeArrays then ys @ xs else xs)) target
            | _ \<Rightarrow> AList.update key (Arr xs) target)
       source isNullOverride isMergeArrays"
| "merge target ((key, Null) # source) isNullOverride isMergeArrays =
     merge (if isNullOverride then AList.update key Null target else target)
       source isNullOverride isMergeArrays"
| "merge target ((key, Undefined) # source) isNullOverride isMergeArrays =
     merge (if isNullOverride then AList.update key Undefined target else target)
       source isNullOverride isMergeArrays"
| "merge target ((key, v) # source) isNullOverride isMergeArrays =
     merge (AList.update key v target) source isNullOverride isMergeArrays"

text \<open>
  \<^verbatim>\<open>Hoek.applyToDefaults(defaults, options)\<close>: \<^verbatim>\<open>null\<close> for falsy options, the defaults
  for \<^verbatim>\<open>true\<close>, the error of a failed assertion for any other primitive, for a function and for an
  array; otherwise the merge, in which \<^verbatim>\<open>null\<close> and \<^verbatim>\<open>undefined\<close> do not override and
  arrays are replaced.
\<close>

definition applyToDefaults :: "jsvalue \<Rightarrow> jsvalue \<Rightarrow> error + jsvalue" where
  "applyToDefaults dflts options =
    (if \<not> truthy options then Inr Null
     else case options of
       Bool b \<Rightarrow> Inr dflts
     | Obj kvs \<Rightarrow> Inr (Obj (merge (own_properties dflts) kvs False False))
     | Buffer b \<Rightarrow> Inr (Obj (merge (own_properties dflts) (own_properties options) False False))
     | Arr xs \<Rightarrow> Inl (Error ''Cannot merge array onto an object'')
     | _ \<Rightarrow> Inl (Error ''Invalid options value: must be true, falsy or an object''))"

section \<open>Joi: schemas and validation\<close>

text \<open>
  The \<^verbatim>\<open>joi\<close> package is modelled from its documented behaviour, for the rules the
  schema of this plugin uses. A schema has a presence, a list of values allowed as they
  are, a flag that only those are allowed, a base that checks the type of a value and
  converts it, and tests on the converted value. The base and the tests see the parent
  object, for references to sibling keys.

  Joi validates with conversion on: it reads a number, a boolean, an object or an array
  from a string, and lowercases a string where the schema says \<^verbatim>\<open>lowercase()\<close>. Which
  strings it reads depends on the version of the package, so the three readers are
  parameters; so is the lowercase form it gives a string, which is the work of the
  JavaScript engine (a locale-aware Unicode case mapping).
\<close>

record coercion =
  parse_number :: "string \<Rightarrow> rat option"
  parse_boolean :: "string \<Rightarrow> bool option"
  parse_json :: "string \<Rightarrow> jsvalue option"
  lowercase_of :: "string \<Rightarrow> string"

datatype presence = Optional | Required | Ignore

record schema =
  presence :: presence
  valids :: "jsvalue list"
  allowOnly :: bool
  base :: "coercion \<Rightarrow> jsvalue \<Rightarrow> jsvalue \<Rightarrow> jsvalue option"
  tests :: "(jsvalue \<Rightarrow> jsvalue \<Rightarrow> bool) list"

text \<open>
  Validation of a value under a parent: the converted value, or \<open>None\<close> for an error.
  The order is Joi's: presence, the allowed values, the base, the allowed values again
  on a converted value, the only-allowed flag, the tests.
\<close>

definition validate :: "coercion \<Rightarrow> schema \<Rightarrow> jsvalue \<Rightarrow> jsvalue \<Rightarrow> jsvalue option" where
  "validate c s parent v =
    (if v = Undefined \<and> presence s = Optional then Some Undefined
     else if v = Undefined \<and> presence s = Required then None
     else if v \<in> set (valids s) then Some v
     else case base s c parent v of
       None \<Rightarrow> None
     | Some w \<Rightarrow>
         if w \<noteq> v \<and> w \<in> set (valids s) then Some w
         else if allowOnly s then None
         else if list_all (\<lambda>t. t parent w) (tests s) then Some w
         else None)"

definition Joi_any :: schema where
  "Joi_any = \<lparr>presence = Optional, valids = [], allowOnly = False,
              base = (\<lambda>c parent v. Some v), tests = []\<rparr>"

definition required :: "schema \<Rightarrow> schema" where
  "required s = s\<lparr>presence := Required\<rparr>"

definition allow :: "jsvalue list \<Rightarrow> schema \<Rightarrow> schema" where
  "allow vs s = s\<lparr>valids := valids s @ vs\<rparr>"

definition valid :: "jsvalue list \<Rightarrow> schema \<Rightarrow> schema" where
  "valid vs s = s\<lparr>valids := valids s @ vs, allowOnly := True\<rparr>"

text \<open>\<^verbatim>\<open>Joi.string()\<close>: a string, and not the empty one.\<close>

definition Joi_string :: schema where
  "Joi_string = Joi_any\<lparr>base := (\<lambda>c parent v. case v of
       Str s \<Rightarrow> if s = [] then None else Some v
     | _ \<Rightarrow> None)\<rparr>"

text \<open>\<^verbatim>\<open>.lowercase()\<close> under conversion: the string is lowercased, not refused.\<close>

definition lowercase :: "schema \<Rightarrow> schema" where
  "lowercase s = s\<lparr>base := (\<lambda>c parent v. case base s c parent v of
       Some (Str t) \<Rightarrow> Some (Str (lowercase_of c t))
     | r \<Rightarrow> r)\<rparr>"

definition Joi_number :: schema where
  "Joi_number = Joi_any\<lparr>base := (\<lambda>c parent v. case v of
       Num n \<Rightarrow> Some v
     | Str s \<Rightarrow> map_option Num (parse_number c s)
     | _ \<Rightarrow> None)\<rparr>"

text \<open>
  \<^verbatim>\<open>.integer()\<close> is \<^verbatim>\<open>Number.isSafeInteger\<close>: a whole number of absolute value at most
  \<open>2\<^sup>5\<^sup>3 - 1\<close>.
\<close>

definition integer :: "schema \<Rightarrow> schema" where
  "integer s = s\<lparr>tests := tests s @ [\<lambda>parent v. case v of
       Num n \<Rightarrow> of_int \<lfloor>n\<rfloor> = n \<and> \<bar>n\<bar> \<le> 9007199254740991
     | _ \<Rightarrow> False]\<rparr>"

definition number_min :: "rat \<Rightarrow> schema \<Rightarrow> schema" where
  "number_min limit s = s\<lparr>tests := tests s @ [\<lambda>parent v. case v of
       Num n \<Rightarrow> limit \<le> n
     | _ \<Rightarrow> False]\<rparr>"

text \<open>\<^verbatim>\<open>.less(Joi.ref(key))\<close>: below the sibling's value, which must be a number.\<close>

definition less_ref :: "string \<Rightarrow> schema \<Rightarrow> schema" where
  "less_ref key s = s\<lparr>tests := tests s @ [\<lambda>parent v. case (v, get parent key) of
       (Num n, Num limit) \<Rightarrow> n < limit
     | _ \<Rightarrow> False]\<rparr>"

definition Joi_boolean :: schema where
  "Joi_boolean = Joi_any\<lparr>base := (\<lambda>c parent v. case v of
       Bool b \<Rightarrow> Some v
     | Str s \<Rightarrow> map_option Bool (parse_boolean c s)
     | _ \<Rightarrow> None)\<rparr>"

text \<open>\<^verbatim>\<open>Joi.binary()\<close>: a buffer; a string is converted to one.\<close>

definition Joi_binary :: schema where
  "Joi_binary = Joi_any\<lparr>base := (\<lambda>c parent v. case v of
       Buffer b \<Rightarrow> Some v
     | Str s \<Rightarrow> Some (Buffer s)
     | _ \<Rightarrow> None)\<rparr>"

definition Joi_func :: schema where
  "Joi_func = Joi_any\<lparr>base := (\<lambda>c parent v. case v of
       Func f \<Rightarrow> Some v
     | _ \<Rightarrow> None)\<rparr>"

text \<open>
  An object for Joi: a value of type \<^verbatim>\<open>object\<close> that is not an array and not \<^verbatim>\<open>null\<close>, or
  a string that reads as one.
\<close>

definition as_object :: "coercion \<Rightarrow> jsvalue \<Rightarrow> jsvalue option" where
  "as_object c v = (case v of
       Obj kvs \<Rightarrow> Some v
     | Buffer b \<Rightarrow> Some v
     | Str s \<Rightarrow> (case parse_json c s of
           Some (Obj kvs) \<Rightarrow> Some (Obj kvs)
         | Some (Buffer b) \<Rightarrow> Some (Buffer b)
         | _ \<Rightarrow> None)
     | _ \<Rightarrow> None)"

text \<open>\<^verbatim>\<open>Joi.object()\<close> with no keys: any object.\<close>

definition Joi_object :: schema where
  "Joi_object = Joi_any\<lparr>base := (\<lambda>c parent v. as_object c v)\<rparr>"

text \<open>
  The children of an object schema, in the order of the source (a key comes after the
  sibling it refers to, which is the order Joi sorts them into). Each child is
  validated under the object with the converted values of the children before it.
\<close>

fun validate_children :: "coercion \<Rightarrow> (string \<times> schema) list \<Rightarrow> (string \<times> jsvalue) list \<Rightarrow> (string \<times> jsvalue) list option" where
  "validate_children c [] target = Some target"
| "validate_children c ((key, s) # children) target =
     (case validate c s (Obj target) (get (Obj target) key) of
        None \<Rightarrow> None
      | Some w \<Rightarrow> validate_children c children
          (if w = Undefined then target else AList.update key w target))"

text \<open>\<^verbatim>\<open>Joi.object({...})\<close>: the children hold and the object has no other key.\<close>

definition Joi_object_keys :: "(string \<times> schema) list \<Rightarrow> schema" where
  "Joi_object_keys children = Joi_any\<lparr>base := (\<lambda>c parent v. case as_object c v of
       None \<Rightarrow> None
     | Some ob \<Rightarrow>
         if list_all (\<lambda>key. key \<in> set (map fst children)) (map fst (own_properties ob))
         then map_option Obj (validate_children c children (own_properties ob))
         else None)\<rparr>"

text \<open>\<^verbatim>\<open>Joi.alternatives([...])\<close>, also written as an array of schemas: the first that holds.\<close>

fun first_match :: "coercion \<Rightarrow> schema list \<Rightarrow> jsvalue \<Rightarrow> jsvalue \<Rightarrow> jsvalue option" where
  "first_match c [] parent v = None"
| "first_match c (s # ss) parent v =
     (case validate c s parent v of
        Some w \<Rightarrow> Some w
      | None \<Rightarrow> first_match c ss parent v)"

definition Joi_alternatives :: "schema list \<Rightarrow> schema" where
  "Joi_alternatives ss = Joi_any\<lparr>base := (\<lambda>c parent v. first_match c ss parent v)\<rparr>"

text \<open>
  \<^verbatim>\<open>Joi.array().items(...)\<close>, with \<^verbatim>\<open>.single()\<close> when \<open>single\<close> holds: an array, or a
  string that reads as one, or with \<open>single\<close> any other value as an array of one; every
  item is defined and matches one of the item schemas.
\<close>

fun validate_items :: "coercion \<Rightarrow> schema list \<Rightarrow> jsvalue \<Rightarrow> jsvalue list \<Rightarrow> jsvalue list option" where
  "validate_items c ss parent [] = Some []"
| "validate_items c ss parent (x # xs) =
     (if x = Undefined then None
      else case first_match c ss parent x of
        None \<Rightarrow> None
      | Some w \<Rightarrow> map_option ((#) w) (validate_items c ss parent xs))"

definition Joi_array_items :: "bool \<Rightarrow> schema list \<Rightarrow> schema" where
  "Joi_array_items single ss = Joi_any\<lparr>base := (\<lambda>c parent v.
       let items =
         (case v of
            Arr xs \<Rightarrow> Some xs
          | Str s \<Rightarrow> (case parse_json c s of
                Some (Arr xs) \<Rightarrow> Some xs
              | _ \<Rightarrow> if single then Some [v] else None)
          | _ \<Rightarrow> if single then Some [v] else None)
       in case items of
            None \<Rightarrow> None
          | Some xs \<Rightarrow> map_option Arr (validate_items c ss (Arr xs) xs))\<rparr>"

definition array_min :: "nat \<Rightarrow> schema \<Rightarrow> schema" where
  "array_min limit s = s\<lparr>tests := tests s @ [\<lambda>parent v. case v of
       Arr xs \<Rightarrow> limit \<le> length xs
     | _ \<Rightarrow> False]\<rparr>"

text \<open>
  \<^verbatim>\<open>s.when(key, { is: true, otherwise: o })\<close>: where the sibling, as converted, is
  \<^verbatim>\<open>true\<close> the schema \<open>s\<close> itself decides; elsewhere \<open>s\<close> joined with \<open>o\<close> does, which adds
  the allowed values of \<open>o\<close> and its only-allowed flag to \<open>s\<close>.
\<close>

definition concat :: "schema \<Rightarrow> schema \<Rightarrow> schema" where
  "concat s t = s\<lparr>valids := valids s @ valids t, allowOnly := (allowOnly s \<or> allowOnly t),
                  tests := tests s @ tests t\<rparr>"

definition when_true :: "string \<Rightarrow> schema \<Rightarrow> schema \<Rightarrow> schema" where
  "when_true key otherwise s = Joi_any\<lparr>presence := Ignore, base := (\<lambda>c parent v.
       case validate c (required (valid [Bool True] Joi_boolean)) parent (get parent key) of
         None \<Rightarrow> validate c (concat s otherwise) parent v
       | Some w \<Rightarrow> validate c s parent v)\<rparr>"

text \<open>\<^verbatim>\<open>Joi.assert(value, schema, message)\<close>: throws on an error, returns nothing.\<close>

definition Joi_assert :: "coercion \<Rightarrow> jsvalue \<Rightarrow> schema \<Rightarrow> string \<Rightarrow> error + unit" where
  "Joi_assert c v s message =
    (case validate c s Undefined v of
       None \<Rightarrow> Inl (ValidationError message)
     | Some w \<Rightarrow> Inr ())"

section \<open>The plugin: defaults, schema, registration\<close>

text \<open>\<^verbatim>\<open>internals.defaults\<close> (lines 17 to 41).\<close>

definition internals_defaults :: jsvalue where
  "internals_defaults = Obj [
     (''auth'', Obj [
        (''endpoint'', Str ''/nes/auth''),
        (''id'', Str ''nes.auth''),
        (''type'', Str ''direct''),
        (''cookie'', Str ''nes''),
        (''isSecure'', Bool True),
        (''isHttpOnly'', Bool True),
        (''path'', Str ''/''),
        (''index'', Bool False),
        (''timeout'', Num 5000),
        (''maxConnectionsPerUser'', Bool False)]),
     (''headers'', Null),
     (''payload'', Obj [
        (''maxChunkChars'', Bool False)]),
     (''heartbeat'', Obj [
        (''interval'', Num 15000),
        (''timeout'', Num 5000)]),
     (''maxConnections'', Bool False)]"

text \<open>\<^verbatim>\<open>internals.schema\<close> (lines 44 to 85).\<close>

definition internals_schema :: schema where
  "internals_schema = Joi_object_keys [
     (''onConnection'', Joi_func),
     (''onDisconnection'', Joi_func),
     (''onMessage'', Joi_func),
     (''auth'', required (allow [Bool False] (Joi_object_keys [
        (''endpoint'', required Joi_string),
        (''id'', Joi_string),
        (''type'', required (valid [Str ''cookie'', Str ''token'', Str ''direct''] Joi_any)),
        (''route'', Joi_alternatives [
           Joi_object,
           Joi_string]),
        (''cookie'', required Joi_string),
        (''isSecure'', Joi_boolean),
        (''isHttpOnly'', Joi_boolean),
        (''path'', allow [Null] Joi_string),
        (''domain'', allow [Null] Joi_string),
        (''ttl'', allow [Null] Joi_number),
        (''iron'', Joi_object),
        (''password'', Joi_alternatives [
           Joi_string,
           Joi_binary,
           Joi_object]),
        (''index'', Joi_boolean),
        (''timeout'', allow [Bool False] (number_min 1 (integer Joi_number))),
        (''maxConnectionsPerUser'',
           when_true ''index'' (valid [Bool False] Joi_any)
             (allow [Bool False] (number_min 1 (integer Joi_number))))]))),
     (''headers'', allow [Str ''*'', Null] (array_min 1 (Joi_array_items False [lowercase Joi_string]))),
     (''payload'', Joi_object_keys [
        (''maxChunkChars'', allow [Bool False] (number_min 1 (integer Joi_number)))]),
     (''heartbeat'', allow [Bool False] (Joi_object_keys [
        (''interval'', required (number_min 1 (integer Joi_number))),
        (''timeout'', required (less_ref ''interval'' (number_min 1 (integer Joi_number))))])),
     (''maxConnections'', allow [Bool False] (number_min 1 (integer Joi_number))),
     (''origin'', array_min 1 (Joi_array_items True [Joi_string]))]"

text \<open>
  \<^verbatim>\<open>settings.headers.map((field) => field.toLowerCase())\<close> (line 94): a field that is
  not a string has no such method, which throws. \<^verbatim>\<open>String.prototype.toLowerCase\<close> is a
  function of the JavaScript engine, which follows the Unicode case mapping: it is the
  parameter \<open>toLowerCase\<close>.
\<close>

fun lowercase_fields :: "(string \<Rightarrow> string) \<Rightarrow> jsvalue list \<Rightarrow> error + jsvalue list" where
  "lowercase_fields toLowerCase [] = Inr []"
| "lowercase_fields toLowerCase (Str s # others) =
     (case lowercase_fields toLowerCase others of
        Inl e \<Rightarrow> Inl e
      | Inr rest \<Rightarrow> Inr (Str (toLowerCase s) # rest))"
| "lowercase_fields toLowerCase (field # others) =
     Inl (TypeError ''field.toLowerCase is not a function'')"

text \<open>Lines 93 to 95 of \<^verbatim>\<open>register\<close>: the headers, when they are an array.\<close>

definition lowercase_headers :: "(string \<Rightarrow> string) \<Rightarrow> jsvalue \<Rightarrow> error + jsvalue" where
  "lowercase_headers toLowerCase settings =
    (case get settings ''headers'' of
       Arr headers \<Rightarrow>
         (case lowercase_fields toLowerCase headers of
            Inl e \<Rightarrow> Inl e
          | Inr lowered \<Rightarrow> Inr (put settings ''headers'' (Arr lowered)))
     | _ \<Rightarrow> Inr settings)"

text \<open>
  A listener, of which \<^verbatim>\<open>lib/index.js\<close> uses the constructor, the \<^verbatim>\<open>_stopped\<close> flag and
  the \<^verbatim>\<open>_close\<close> method. The class is defined in \<^verbatim>\<open>lib/listener.js\<close>: the constructor
  and \<^verbatim>\<open>_close\<close> are parameters, the rest of a listener is the extension of the record.
\<close>

record listener =
  stopped :: bool

text \<open>
  The modules that \<^verbatim>\<open>register\<close> calls and this file does not define, and the
  \<^verbatim>\<open>toLowerCase\<close> of the engine's strings.
\<close>

record ('c, 'l) modules =
  Joi_convert :: coercion
  Cryptiles_source :: "nat \<Rightarrow> nat \<Rightarrow> string"
  Listener_new :: "'c \<Rightarrow> jsvalue \<Rightarrow> 'l listener_scheme"
  String_toLowerCase :: "string \<Rightarrow> string"

text \<open>
  What \<^verbatim>\<open>register\<close> leaves behind: the server, the \<^verbatim>\<open>settings\<close> and the \<^verbatim>\<open>listeners\<close>
  the hooks close over, and the count of random strings drawn.
\<close>

record ('c, 'l) registration =
  reg_server :: "'c server"
  reg_settings :: jsvalue
  reg_listeners :: "'l listener_scheme list"
  reg_drawn :: nat

text \<open>
  \<^verbatim>\<open>exports.register(server, options, next)\<close> (lines 88 to 141). An exception of the
  source is \<open>Inl\<close>; \<^verbatim>\<open>return next()\<close> is \<open>Inr\<close> of what has been set up.
\<close>

definition register ::
  "('c, 'l) modules \<Rightarrow> 'c server \<Rightarrow> jsvalue \<Rightarrow> nat \<Rightarrow> error + ('c, 'l) registration" where
  "register m server options drawn =
    (case applyToDefaults internals_defaults options of
       Inl e \<Rightarrow> Inl e
     | Inr settings \<Rightarrow>
    (case Joi_assert (Joi_convert m) settings internals_schema ''Invalid nes configuration'' of
       Inl e \<Rightarrow> Inl e
     | Inr u \<Rightarrow>
    (case lowercase_headers (String_toLowerCase m) settings of
       Inl e \<Rightarrow> Inl e
     | Inr settings \<Rightarrow>
    (case internals_auth (Cryptiles_source m) server settings drawn of
       Inl e \<Rightarrow> Inl e
     | Inr (server, settings, drawn) \<Rightarrow>
         let listeners = map (\<lambda>connection. Listener_new m connection settings) (connections server);
             server = server_ext server ''onPreStart'' OnPreStart;
             server = server_ext server ''onPreStop'' OnPreStop;
             server = server_decorate server ''server'' ''broadcast'' Listener_broadcast;
             server = server_decorate server ''server'' ''subscription'' Listener_subscription;
             server = server_decorate server ''server'' ''publish'' Listener_publish;
             server = server_decorate server ''server'' ''eachSocket'' Listener_eachSocket;
             server = server_decorate server ''request'' ''socket'' Internals_socket
         in Inr \<lparr>reg_server = server, reg_settings = settings,
                  reg_listeners = listeners, reg_drawn = drawn\<rparr>))))"

section \<open>The lifecycle hooks\<close>

text \<open>
  A hook is called with a continuation. The functions are written in
  continuation-passing style over the state they act on: what a hook returns is what
  its continuation returns on the state the hook has reached, and a hook that never
  calls its continuation never returns that.

  \<open>onPreStart\<close> (lines 112 to 119): the loop, then \<^verbatim>\<open>extNext()\<close>.
\<close>

function onPreStart_loop :: "nat \<Rightarrow> 'l listener_scheme list \<Rightarrow> 'l listener_scheme list" where
  "onPreStart_loop i listeners =
     (if i < length listeners
      then onPreStart_loop (i + 1) (listeners[i := (listeners ! i)\<lparr>stopped := False\<rparr>])
      else listeners)"
  by pat_completeness auto
termination
  by (relation "measure (\<lambda>(i, listeners). length listeners - i)") auto

declare onPreStart_loop.simps [simp del]

definition onPreStart ::
  "'s \<Rightarrow> (error option \<Rightarrow> 'l listener_scheme list \<Rightarrow> 'r) \<Rightarrow> 'l listener_scheme list \<Rightarrow> 'r" where
  "onPreStart srv extNext listeners = extNext None (onPreStart_loop 0 listeners)"



section \<open>Reading and writing properties\<close>

lemma get_put_same: "is_object ob \<Longrightarrow> get (put ob k v) k = v"
  by (cases ob) (simp_all add: update_conv')

lemma get_put_other: "k' \<noteq> k \<Longrightarrow> get (put ob k v) k' = get ob k'"
  by (cases ob) (simp_all add: update_conv')

lemma get_is_object: "get ob k \<noteq> Undefined \<Longrightarrow> is_object ob"
  by (cases ob) simp_all

lemma is_object_truthy: "is_object ob \<Longrightarrow> truthy ob"
  by (cases ob) simp_all

lemma is_object_put: "is_object (put ob k v) = is_object ob"
  by (cases ob) simp_all

section \<open>What a successful registration has done\<close>

lemma lowercase_headers_get:
  "lowercase_headers lower settings = Inr settings' \<Longrightarrow> k \<noteq> ''headers'' \<Longrightarrow>
   get settings' k = get settings k"
  by (auto simp: lowercase_headers_def get_put_other split: jsvalue.splits sum.splits)

text \<open>The steps of \<open>register\<close>, read off a registration that returned.\<close>

lemma register_Inr:
  assumes "register m server options drawn = Inr r"
  shows "\<exists>merged settings server'.
    applyToDefaults internals_defaults options = Inr merged \<and>
    validate (Joi_convert m) internals_schema Undefined merged \<noteq> None \<and>
    lowercase_headers (String_toLowerCase m) merged = Inr settings \<and>
    internals_auth (Cryptiles_source m) server settings drawn
      = Inr (server', reg_settings r, reg_drawn r) \<and>
    routes (reg_server r) = routes server' \<and>
    states (reg_server r) = states server' \<and>
    connections (reg_server r) = connections server' \<and>
    exts (reg_server r) = exts server' @ [(''onPreStart'', OnPreStart), (''onPreStop'', OnPreStop)] \<and>
    reg_listeners r = map (\<lambda>connection. Listener_new m connection (reg_settings r)) (connections server')"
  using assms
  by (auto simp: register_def Joi_assert_def Let_def server_ext_def server_decorate_def
      split: sum.splits option.splits prod.splits)

text \<open>
  \<open>internals_auth\<close> on settings whose \<^verbatim>\<open>auth\<close> is an object: the password it gives the
  object, the draw it makes for it, the route and the cookie definition it registers.
\<close>

lemma internals_auth_object:
  assumes run: "internals_auth source server settings drawn = Inr (server', settings', drawn')"
    and ob: "is_object (get settings ''auth'')"
  shows "\<exists>config generate.
     generate = (get (get settings ''auth'') ''type'' \<noteq> Str ''direct'' \<and>
                 \<not> truthy (get (get settings ''auth'') ''password'')) \<and>
     config = (if generate
               then put (get settings ''auth'') ''password'' (Str (source drawn 32))
               else get settings ''auth'') \<and>
     get settings' ''auth'' = config \<and>
     drawn' = (if generate then Suc drawn else drawn) \<and>
     routes server' = routes server @ [\<lparr>
        route_method = (if get config ''type'' = Str ''direct'' then Str ''auth'' else Str ''GET''),
        route_path = get config ''endpoint'',
        route_id = get config ''id'',
        route_isInternal = (get config ''type'' = Str ''direct''),
        route_auth = get config ''route'',
        route_handler_config = config\<rparr>] \<and>
     states server' = states server @
       (if get config ''type'' = Str ''cookie''
        then [(get config ''cookie'', Obj [
                (''isSecure'', get config ''isSecure''),
                (''isHttpOnly'', get config ''isHttpOnly''),
                (''path'', get config ''path''),
                (''domain'', get config ''domain''),
                (''ttl'', get config ''ttl''),
                (''encoding'', Str ''iron''),
                (''password'', get config ''password''),
                (''iron'', get config ''iron'')])]
        else [])"
proof -
  from ob have "is_object settings" by (cases settings) auto
  with run ob show ?thesis
    by (auto simp: internals_auth_def randomString_def Let_def
        server_route_def server_state_def get_put_same get_put_other is_object_put is_object_truthy
        split: if_splits)
qed

lemma register_auth:
  assumes reg: "register m server options drawn = Inr r"
    and merged: "applyToDefaults internals_defaults options = Inr merged"
    and ob: "is_object (get merged ''auth'')"
  shows "\<exists>config generate.
     generate = (get (get merged ''auth'') ''type'' \<noteq> Str ''direct'' \<and>
                 \<not> truthy (get (get merged ''auth'') ''password'')) \<and>
     config = (if generate
               then put (get merged ''auth'') ''password'' (Str (Cryptiles_source m drawn 32))
               else get merged ''auth'') \<and>
     get (reg_settings r) ''auth'' = config \<and>
     reg_drawn r = (if generate then Suc drawn else drawn) \<and>
     routes (reg_server r) = routes server @ [\<lparr>
        route_method = (if get config ''type'' = Str ''direct'' then Str ''auth'' else Str ''GET''),
        route_path = get config ''endpoint'',
        route_id = get config ''id'',
        route_isInternal = (get config ''type'' = Str ''direct''),
        route_auth = get config ''route'',
        route_handler_config = config\<rparr>] \<and>
     states (reg_server r) = states server @
       (if get config ''type'' = Str ''cookie''
        then [(get config ''cookie'', Obj [
                (''isSecure'', get config ''isSecure''),
                (''isHttpOnly'', get config ''isHttpOnly''),
                (''path'', get config ''path''),
                (''domain'', get config ''domain''),
                (''ttl'', get config ''ttl''),
                (''encoding'', Str ''iron''),
                (''password'', get config ''password''),
                (''iron'', get config ''iron'')])]
        else [])"
proof -
  from register_Inr [OF reg] merged obtain settings server' where
    low: "lowercase_headers (String_toLowerCase m) merged = Inr settings" and
    run: "internals_auth (Cryptiles_source m) server settings drawn
            = Inr (server', reg_settings r, reg_drawn r)" and
    same: "routes (reg_server r) = routes server'" "states (reg_server r) = states server'"
    by auto
  have eq: "get settings ''auth'' = get merged ''auth''"
    using lowercase_headers_get [OF low, of "''auth''"] by simp
  with ob have "is_object (get settings ''auth'')" by simp
  from internals_auth_object [OF run this] show ?thesis
    unfolding eq same by simp
qed

section \<open>The handshake endpoint: the claims\<close>

text \<open>
  Claim C6. Whatever the authentication mode, when the host reports the request as not
  authenticated the handler does one thing: it replies \<^verbatim>\<open>{ status: 'unauthenticated' }\<close>.
  It builds no credentials object, calls no seal and sets no cookie, whatever the
  credentials, the configuration and the sealing library are.
\<close>

theorem handler_unauthenticated:
  "\<not> isAuthenticated (auth request) \<Longrightarrow>
   handler Iron config request = [Reply (Payload (Obj [(''status'', Str ''unauthenticated'')]))]"
  by (simp add: handler_def)

theorem handler_unauthenticated_witness:
  "\<not> isAuthenticated (auth \<lparr>auth = \<lparr>isAuthenticated = False, credentials = Str ''john'', artifacts = Null\<rparr>\<rparr>) \<and>
   handler \<lparr>seal = (\<lambda>ob password options. Inr ''sealed''), defaults = Null\<rparr>
     (Obj [(''type'', Str ''token''), (''password'', Str ''secret'')])
     \<lparr>auth = \<lparr>isAuthenticated = False, credentials = Str ''john'', artifacts = Null\<rparr>\<rparr>
   = [Reply (Payload (Obj [(''status'', Str ''unauthenticated'')]))]"
  using handler_unauthenticated [of
      "\<lparr>auth = \<lparr>isAuthenticated = False, credentials = Str ''john'', artifacts = Null\<rparr>\<rparr>"
      "\<lparr>seal = (\<lambda>ob password options. Inr ''sealed''), defaults = Null\<rparr>"
      "Obj [(''type'', Str ''token''), (''password'', Str ''secret'')]"]
  by simp

text \<open>
  Claim C4. In a registration whose merged configuration has \<^verbatim>\<open>auth.type = 'direct'\<close>, the
  route registered for the handshake answers an authenticated request with exactly
  \<^verbatim>\<open>{ credentials, artifacts }\<close> of the request's authentication result. The registration
  draws no random string, leaves the \<^verbatim>\<open>auth\<close> object as merged (it writes no password
  into it) and defines no cookie. The witness registers with no password at all.
\<close>

theorem direct_handshake:
  assumes reg: "register m server options drawn = Inr r"
    and merged: "applyToDefaults internals_defaults options = Inr merged"
    and direct: "get (get merged ''auth'') ''type'' = Str ''direct''"
    and authenticated: "isAuthenticated (auth request)"
  shows "\<exists>route. routes (reg_server r) = routes server @ [route] \<and>
     route_path route = get (get merged ''auth'') ''endpoint'' \<and>
     handler Iron (route_handler_config route) request =
       [Reply (Payload (Obj [(''credentials'', credentials (auth request)),
                             (''artifacts'', artifacts (auth request))]))] \<and>
     reg_drawn r = drawn \<and>
     get (reg_settings r) ''auth'' = get merged ''auth'' \<and>
     states (reg_server r) = states server"
proof -
  from direct have ob: "is_object (get merged ''auth'')"
    by (intro get_is_object [of _ "''type''"]) simp
  from register_auth [OF reg merged ob] direct authenticated show ?thesis
    by (auto simp: handler_def)
qed

theorem direct_handshake_witness:
  "\<exists>r. register
      \<lparr>Joi_convert = \<lparr>parse_number = (\<lambda>s. None), parse_boolean = (\<lambda>s. None), parse_json = (\<lambda>s. None),
         lowercase_of = map (\<lambda>ch. let n = of_char ch :: nat in if 65 \<le> n \<and> n \<le> 90 then char_of (n + 32) else ch)\<rparr>,
       Cryptiles_source = (\<lambda>k n. replicate n (CHR ''r'')),
       Listener_new = (\<lambda>connection settings. \<lparr>stopped = False\<rparr>),
       String_toLowerCase = map (\<lambda>ch. let n = of_char ch :: nat in if 65 \<le> n \<and> n \<le> 90 then char_of (n + 32) else ch)\<rparr>
      \<lparr>connections = [''c1''], states = [], routes = [], exts = [], decorations = []\<rparr>
      (Obj [(''auth'', Obj [(''type'', Str ''direct'')])]) 0 = Inr r \<and>
    (\<exists>route. routes (reg_server r) = [route] \<and>
       route_path route = Str ''/nes/auth'' \<and>
       handler \<lparr>seal = (\<lambda>ob password options. Inr ''sealed''), defaults = Null\<rparr>
         (route_handler_config route)
         \<lparr>auth = \<lparr>isAuthenticated = True, credentials = Str ''john'', artifacts = Null\<rparr>\<rparr>
       = [Reply (Payload (Obj [(''credentials'', Str ''john''), (''artifacts'', Null)]))]) \<and>
    reg_drawn r = 0 \<and>
    get (get (reg_settings r) ''auth'') ''password'' = Undefined"
proof -
  let ?m = "\<lparr>Joi_convert = \<lparr>parse_number = (\<lambda>s. None), parse_boolean = (\<lambda>s. None), parse_json = (\<lambda>s. None),
         lowercase_of = map (\<lambda>ch. let n = of_char ch :: nat in if 65 \<le> n \<and> n \<le> 90 then char_of (n + 32) else ch)\<rparr>,
       Cryptiles_source = (\<lambda>k n. replicate n (CHR ''r'')),
       Listener_new = (\<lambda>connection settings. \<lparr>stopped = False\<rparr>),
       String_toLowerCase = map (\<lambda>ch. let n = of_char ch :: nat in if 65 \<le> n \<and> n \<le> 90 then char_of (n + 32) else ch)\<rparr> :: (string, unit) modules"
  let ?server = "\<lparr>connections = [''c1''], states = [], routes = [], exts = [], decorations = []\<rparr> :: string server"
  let ?options = "Obj [(''auth'', Obj [(''type'', Str ''direct'')])]"
  let ?request = "\<lparr>auth = \<lparr>isAuthenticated = True, credentials = Str ''john'', artifacts = Null\<rparr>\<rparr>"
  have "\<not> isl (register ?m ?server ?options 0)"
    by code_simp
  then obtain r where reg: "register ?m ?server ?options 0 = Inr r"
    by (cases "register ?m ?server ?options 0") auto
  obtain merged where merged: "applyToDefaults internals_defaults ?options = Inr merged"
    and config: "get merged ''auth'' = Obj [
        (''endpoint'', Str ''/nes/auth''),
        (''id'', Str ''nes.auth''),
        (''type'', Str ''direct''),
        (''cookie'', Str ''nes''),
        (''isSecure'', Bool True),
        (''isHttpOnly'', Bool True),
        (''path'', Str ''/''),
        (''index'', Bool False),
        (''timeout'', Num 5000),
        (''maxConnectionsPerUser'', Bool False)]"
    by (simp add: applyToDefaults_def internals_defaults_def)
  have "isAuthenticated (auth ?request)" by simp
  from direct_handshake [OF reg merged _ this, of "\<lparr>seal = (\<lambda>ob password options. Inr ''sealed''), defaults = Null\<rparr>"]
  show ?thesis
    unfolding config using reg by (intro exI [of _ r]) auto
qed

text \<open>
  Claim C1. In a registration whose merged configuration has \<^verbatim>\<open>auth.type = 'token'\<close> (the
  witness registers \<^verbatim>\<open>{ auth: { type: 'token', endpoint: '/nes/auth' } }\<close>), the \<^verbatim>\<open>GET\<close>
  route at the configured endpoint answers an authenticated request, when the seal
  succeeds, with \<^verbatim>\<open>{ status: 'authenticated', token: t }\<close>, where \<open>t\<close> is what
  \<^verbatim>\<open>Iron.seal\<close> returns for \<^verbatim>\<open>{ credentials, artifacts }\<close> and the password: the configured
  password when it is truthy, otherwise the one string drawn from the generator during
  registration (the count of draws goes up by exactly one; the handler has no access to
  the generator). An empty string counts as no password, as \<^verbatim>\<open>!config.password\<close> reads it.
\<close>

theorem token_handshake:
  fixes request :: request and Iron :: iron
  defines "envelope \<equiv> Obj [(''credentials'', credentials (auth request)),
                             (''artifacts'', artifacts (auth request))]"
  assumes reg: "register m server options drawn = Inr r"
    and merged: "applyToDefaults internals_defaults options = Inr merged"
    and token: "get (get merged ''auth'') ''type'' = Str ''token''"
    and authenticated: "isAuthenticated (auth request)"
    and password: "password =
          (if truthy (get (get merged ''auth'') ''password'')
           then get (get merged ''auth'') ''password''
           else Str (Cryptiles_source m drawn 32))"
    and sealed: "seal Iron envelope password
          (js_or (get (get merged ''auth'') ''iron'') (defaults Iron)) = Inr t"
  shows "\<exists>route. routes (reg_server r) = routes server @ [route] \<and>
     route_method route = Str ''GET'' \<and>
     route_path route = get (get merged ''auth'') ''endpoint'' \<and>
     handler Iron (route_handler_config route) request =
       [Seal envelope password (js_or (get (get merged ''auth'') ''iron'') (defaults Iron)),
        Reply (Payload (Obj [(''status'', Str ''authenticated''), (''token'', Str t)]))] \<and>
     reg_drawn r = (if truthy (get (get merged ''auth'') ''password'') then drawn else Suc drawn)"
proof -
  from token have ob: "is_object (get merged ''auth'')"
    by (intro get_is_object [of _ "''type''"]) simp
  from register_auth [OF reg merged ob] token authenticated sealed ob show ?thesis
    unfolding password envelope_def
    by (auto simp: handler_def Let_def get_put_other get_put_same)
qed

theorem token_handshake_witness:
  "(\<exists>r. register
      \<lparr>Joi_convert = \<lparr>parse_number = (\<lambda>s. None), parse_boolean = (\<lambda>s. None), parse_json = (\<lambda>s. None),
         lowercase_of = map (\<lambda>ch. let n = of_char ch :: nat in if 65 \<le> n \<and> n \<le> 90 then char_of (n + 32) else ch)\<rparr>,
       Cryptiles_source = (\<lambda>k n. replicate n (CHR ''r'')),
       Listener_new = (\<lambda>connection settings. \<lparr>stopped = False\<rparr>),
       String_toLowerCase = map (\<lambda>ch. let n = of_char ch :: nat in if 65 \<le> n \<and> n \<le> 90 then char_of (n + 32) else ch)\<rparr>
      \<lparr>connections = [''c1''], states = [], routes = [], exts = [], decorations = []\<rparr>
      (Obj [(''auth'', Obj [(''type'', Str ''token''), (''endpoint'', Str ''/nes/auth'')])]) 0 = Inr r \<and>
    (\<exists>route. routes (reg_server r) = [route] \<and>
       route_method route = Str ''GET'' \<and>
       route_path route = Str ''/nes/auth'' \<and>
       handler \<lparr>seal = (\<lambda>ob password options. case password of
                     Str p \<Rightarrow> Inr (''Fe26.2*'' @ p)
                   | _ \<Rightarrow> Inl (Error ''Bad password'')),
         defaults = Obj [(''ttl'', Num 0)]\<rparr>
         (route_handler_config route)
         \<lparr>auth = \<lparr>isAuthenticated = True, credentials = Str ''john'', artifacts = Null\<rparr>\<rparr>
       = [Seal (Obj [(''credentials'', Str ''john''), (''artifacts'', Null)])
            (Str (replicate 32 (CHR ''r''))) (Obj [(''ttl'', Num 0)]),
          Reply (Payload (Obj [(''status'', Str ''authenticated''),
                               (''token'', Str (''Fe26.2*'' @ replicate 32 (CHR ''r'')))]))]) \<and>
    reg_drawn r = 1) \<and>
   (\<exists>r. register
      \<lparr>Joi_convert = \<lparr>parse_number = (\<lambda>s. None), parse_boolean = (\<lambda>s. None), parse_json = (\<lambda>s. None),
         lowercase_of = map (\<lambda>ch. let n = of_char ch :: nat in if 65 \<le> n \<and> n \<le> 90 then char_of (n + 32) else ch)\<rparr>,
       Cryptiles_source = (\<lambda>k n. replicate n (CHR ''r'')),
       Listener_new = (\<lambda>connection settings. \<lparr>stopped = False\<rparr>),
       String_toLowerCase = map (\<lambda>ch. let n = of_char ch :: nat in if 65 \<le> n \<and> n \<le> 90 then char_of (n + 32) else ch)\<rparr>
      \<lparr>connections = [''c1''], states = [], routes = [], exts = [], decorations = []\<rparr>
      (Obj [(''auth'', Obj [(''type'', Str ''token''), (''password'', Str ''configured'')])]) 0 = Inr r \<and>
    (\<exists>route. routes (reg_server r) = [route] \<and>
       handler \<lparr>seal = (\<lambda>ob password options. case password of
                     Str p \<Rightarrow> Inr (''Fe26.2*'' @ p)
                   | _ \<Rightarrow> Inl (Error ''Bad password'')),
         defaults = Obj [(''ttl'', Num 0)]\<rparr>
         (route_handler_config route)
         \<lparr>auth = \<lparr>isAuthenticated = True, credentials = Str ''john'', artifacts = Null\<rparr>\<rparr>
       = [Seal (Obj [(''credentials'', Str ''john''), (''artifacts'', Null)])
            (Str ''configured'') (Obj [(''ttl'', Num 0)]),
          Reply (Payload (Obj [(''status'', Str ''authenticated''),
                               (''token'', Str ''Fe26.2*configured'')]))]) \<and>
    reg_drawn r = 0)"
proof -
  let ?m = "\<lparr>Joi_convert = \<lparr>parse_number = (\<lambda>s. None), parse_boolean = (\<lambda>s. None), parse_json = (\<lambda>s. None),
         lowercase_of = map (\<lambda>ch. let n = of_char ch :: nat in if 65 \<le> n \<and> n \<le> 90 then char_of (n + 32) else ch)\<rparr>,
       Cryptiles_source = (\<lambda>k n. replicate n (CHR ''r'')),
       Listener_new = (\<lambda>connection settings. \<lparr>stopped = False\<rparr>),
       String_toLowerCase = map (\<lambda>ch. let n = of_char ch :: nat in if 65 \<le> n \<and> n \<le> 90 then char_of (n + 32) else ch)\<rparr> :: (string, unit) modules"
  let ?server = "\<lparr>connections = [''c1''], states = [], routes = [], exts = [], decorations = []\<rparr> :: string server"
  let ?generated = "Obj [(''auth'', Obj [(''type'', Str ''token''), (''endpoint'', Str ''/nes/auth'')])]"
  let ?configured = "Obj [(''auth'', Obj [(''type'', Str ''token''), (''password'', Str ''configured'')])]"
  let ?request = "\<lparr>auth = \<lparr>isAuthenticated = True, credentials = Str ''john'', artifacts = Null\<rparr>\<rparr>"
  let ?Iron = "\<lparr>seal = (\<lambda>ob password options. case password of
                     Str p \<Rightarrow> Inr (''Fe26.2*'' @ p)
                   | _ \<Rightarrow> Inl (Error ''Bad password'')),
         defaults = Obj [(''ttl'', Num 0)]\<rparr>"
  let ?envelope = "Obj [(''credentials'', credentials (auth ?request)), (''artifacts'', artifacts (auth ?request))]"
  have authenticated: "isAuthenticated (auth ?request)"
    by simp
  have "\<not> isl (register ?m ?server ?generated 0)"
    by code_simp
  then obtain r1 where reg1: "register ?m ?server ?generated 0 = Inr r1"
    by (cases "register ?m ?server ?generated 0") auto
  have "\<not> isl (register ?m ?server ?configured 0)"
    by code_simp
  then obtain r2 where reg2: "register ?m ?server ?configured 0 = Inr r2"
    by (cases "register ?m ?server ?configured 0") auto
  obtain merged1 where merged1: "applyToDefaults internals_defaults ?generated = Inr merged1"
    and config1: "get merged1 ''auth'' = Obj [
        (''endpoint'', Str ''/nes/auth''),
        (''id'', Str ''nes.auth''),
        (''type'', Str ''token''),
        (''cookie'', Str ''nes''),
        (''isSecure'', Bool True),
        (''isHttpOnly'', Bool True),
        (''path'', Str ''/''),
        (''index'', Bool False),
        (''timeout'', Num 5000),
        (''maxConnectionsPerUser'', Bool False)]"
    by (simp add: applyToDefaults_def internals_defaults_def)
  have token1: "get (get merged1 ''auth'') ''type'' = Str ''token''"
    and sealed1: "seal ?Iron ?envelope
        (if truthy (get (get merged1 ''auth'') ''password'')
         then get (get merged1 ''auth'') ''password''
         else Str (Cryptiles_source ?m 0 32))
        (js_or (get (get merged1 ''auth'') ''iron'') (defaults ?Iron))
        = Inr (''Fe26.2*'' @ replicate 32 (CHR ''r''))"
    by (simp_all add: config1)
  obtain merged2 where merged2: "applyToDefaults internals_defaults ?configured = Inr merged2"
    and config2: "get merged2 ''auth'' = Obj [
        (''endpoint'', Str ''/nes/auth''),
        (''id'', Str ''nes.auth''),
        (''type'', Str ''token''),
        (''cookie'', Str ''nes''),
        (''isSecure'', Bool True),
        (''isHttpOnly'', Bool True),
        (''path'', Str ''/''),
        (''index'', Bool False),
        (''timeout'', Num 5000),
        (''maxConnectionsPerUser'', Bool False),
        (''password'', Str ''configured'')]"
    by (simp add: applyToDefaults_def internals_defaults_def)
  have token2: "get (get merged2 ''auth'') ''type'' = Str ''token''"
    and sealed2: "seal ?Iron ?envelope
        (if truthy (get (get merged2 ''auth'') ''password'')
         then get (get merged2 ''auth'') ''password''
         else Str (Cryptiles_source ?m 0 32))
        (js_or (get (get merged2 ''auth'') ''iron'') (defaults ?Iron))
        = Inr ''Fe26.2*configured''"
    by (simp_all add: config2)
  from token_handshake [OF reg1 merged1 token1 authenticated refl sealed1]
  have first: "\<exists>route. routes (reg_server r1) = [route] \<and>
       route_method route = Str ''GET'' \<and>
       route_path route = Str ''/nes/auth'' \<and>
       handler ?Iron (route_handler_config route) ?request
       = [Seal (Obj [(''credentials'', Str ''john''), (''artifacts'', Null)])
            (Str (replicate 32 (CHR ''r''))) (Obj [(''ttl'', Num 0)]),
          Reply (Payload (Obj [(''status'', Str ''authenticated''),
                               (''token'', Str (''Fe26.2*'' @ replicate 32 (CHR ''r'')))]))]"
    and drawn1: "reg_drawn r1 = 1"
    unfolding config1 by (auto simp: js_or_def)
  from token_handshake [OF reg2 merged2 token2 authenticated refl sealed2]
  have second: "\<exists>route. routes (reg_server r2) = [route] \<and>
       handler ?Iron (route_handler_config route) ?request
       = [Seal (Obj [(''credentials'', Str ''john''), (''artifacts'', Null)])
            (Str ''configured'') (Obj [(''ttl'', Num 0)]),
          Reply (Payload (Obj [(''status'', Str ''authenticated''),
                               (''token'', Str ''Fe26.2*configured'')]))]"
    and drawn2: "reg_drawn r2 = 0"
    unfolding config2 by (auto simp: js_or_def)
  from reg1 first drawn1 reg2 second drawn2 show ?thesis
    by blast
qed

text \<open>
  Claim C5. In token mode, when \<^verbatim>\<open>Iron.seal\<close> calls back with an error, the handler
  replies with that error and does nothing else: its whole trace is the call of the seal
  and the reply. There is no action on the connection in it.
\<close>

theorem token_seal_failure:
  fixes request :: request and Iron :: iron
  defines "envelope \<equiv> Obj [(''credentials'', credentials (auth request)),
                             (''artifacts'', artifacts (auth request))]"
  assumes reg: "register m server options drawn = Inr r"
    and merged: "applyToDefaults internals_defaults options = Inr merged"
    and token: "get (get merged ''auth'') ''type'' = Str ''token''"
    and authenticated: "isAuthenticated (auth request)"
    and password: "password =
          (if truthy (get (get merged ''auth'') ''password'')
           then get (get merged ''auth'') ''password''
           else Str (Cryptiles_source m drawn 32))"
    and failed: "seal Iron envelope password
          (js_or (get (get merged ''auth'') ''iron'') (defaults Iron)) = Inl err"
  shows "\<exists>route. routes (reg_server r) = routes server @ [route] \<and>
     handler Iron (route_handler_config route) request =
       [Seal envelope password (js_or (get (get merged ''auth'') ''iron'') (defaults Iron)),
        Reply (Failure err)]"
proof -
  from token have ob: "is_object (get merged ''auth'')"
    by (intro get_is_object [of _ "''type''"]) simp
  from register_auth [OF reg merged ob] token authenticated failed ob show ?thesis
    unfolding password envelope_def
    by (auto simp: handler_def Let_def get_put_other get_put_same)
qed

theorem token_seal_failure_witness:
  "\<exists>r. register
      \<lparr>Joi_convert = \<lparr>parse_number = (\<lambda>s. None), parse_boolean = (\<lambda>s. None), parse_json = (\<lambda>s. None),
         lowercase_of = map (\<lambda>ch. let n = of_char ch :: nat in if 65 \<le> n \<and> n \<le> 90 then char_of (n + 32) else ch)\<rparr>,
       Cryptiles_source = (\<lambda>k n. replicate n (CHR ''r'')),
       Listener_new = (\<lambda>connection settings. \<lparr>stopped = False\<rparr>),
       String_toLowerCase = map (\<lambda>ch. let n = of_char ch :: nat in if 65 \<le> n \<and> n \<le> 90 then char_of (n + 32) else ch)\<rparr>
      \<lparr>connections = [''c1''], states = [], routes = [], exts = [], decorations = []\<rparr>
      (Obj [(''auth'', Obj [(''type'', Str ''token''), (''password'', Str ''short'')])]) 0 = Inr r \<and>
    (\<exists>route. routes (reg_server r) = [route] \<and>
       handler \<lparr>seal = (\<lambda>ob password options. Inl (Error ''Password string too short'')),
                defaults = Obj [(''ttl'', Num 0)]\<rparr>
         (route_handler_config route)
         \<lparr>auth = \<lparr>isAuthenticated = True, credentials = Str ''john'', artifacts = Null\<rparr>\<rparr>
       = [Seal (Obj [(''credentials'', Str ''john''), (''artifacts'', Null)])
            (Str ''short'') (Obj [(''ttl'', Num 0)]),
          Reply (Failure (Error ''Password string too short''))])"
proof -
  let ?m = "\<lparr>Joi_convert = \<lparr>parse_number = (\<lambda>s. None), parse_boolean = (\<lambda>s. None), parse_json = (\<lambda>s. None),
         lowercase_of = map (\<lambda>ch. let n = of_char ch :: nat in if 65 \<le> n \<and> n \<le> 90 then char_of (n + 32) else ch)\<rparr>,
       Cryptiles_source = (\<lambda>k n. replicate n (CHR ''r'')),
       Listener_new = (\<lambda>connection settings. \<lparr>stopped = False\<rparr>),
       String_toLowerCase = map (\<lambda>ch. let n = of_char ch :: nat in if 65 \<le> n \<and> n \<le> 90 then char_of (n + 32) else ch)\<rparr> :: (string, unit) modules"
  let ?server = "\<lparr>connections = [''c1''], states = [], routes = [], exts = [], decorations = []\<rparr> :: string server"
  let ?options = "Obj [(''auth'', Obj [(''type'', Str ''token''), (''password'', Str ''short'')])]"
  let ?request = "\<lparr>auth = \<lparr>isAuthenticated = True, credentials = Str ''john'', artifacts = Null\<rparr>\<rparr>"
  let ?Iron = "\<lparr>seal = (\<lambda>ob password options. Inl (Error ''Password string too short'')),
                defaults = Obj [(''ttl'', Num 0)]\<rparr>"
  have "\<not> isl (register ?m ?server ?options 0)"
    by code_simp
  then obtain r where reg: "register ?m ?server ?options 0 = Inr r"
    by (cases "register ?m ?server ?options 0") auto
  obtain merged where merged: "applyToDefaults internals_defaults ?options = Inr merged"
    and config: "get merged ''auth'' = Obj [
        (''endpoint'', Str ''/nes/auth''),
        (''id'', Str ''nes.auth''),
        (''type'', Str ''token''),
        (''cookie'', Str ''nes''),
        (''isSecure'', Bool True),
        (''isHttpOnly'', Bool True),
        (''path'', Str ''/''),
        (''index'', Bool False),
        (''timeout'', Num 5000),
        (''maxConnectionsPerUser'', Bool False),
        (''password'', Str ''short'')]"
    by (simp add: applyToDefaults_def internals_defaults_def)
  have token: "get (get merged ''auth'') ''type'' = Str ''token''"
    and authenticated: "isAuthenticated (auth ?request)"
    and failed: "seal ?Iron
        (Obj [(''credentials'', credentials (auth ?request)), (''artifacts'', artifacts (auth ?request))])
        (if truthy (get (get merged ''auth'') ''password'')
         then get (get merged ''auth'') ''password''
         else Str (Cryptiles_source ?m 0 32))
        (js_or (get (get merged ''auth'') ''iron'') (defaults ?Iron)) = Inl (Error ''Password string too short'')"
    by (simp_all add: config)
  from token_seal_failure [OF reg merged token authenticated refl failed]
  show ?thesis
    unfolding config using reg by (intro exI [of _ r]) (auto simp: js_or_def)
qed

text \<open>
  Claim C7. In a registration whose merged configuration has \<^verbatim>\<open>auth.type = 'cookie'\<close>,
  \<^verbatim>\<open>server.state\<close> is called once, with the configured cookie name and the options
  \<^verbatim>\<open>isSecure\<close>, \<^verbatim>\<open>isHttpOnly\<close>, \<^verbatim>\<open>path\<close>, \<^verbatim>\<open>domain\<close>, \<^verbatim>\<open>ttl\<close> and \<^verbatim>\<open>iron\<close> of the configuration,
  the encoding \<^verbatim>\<open>'iron'\<close> and the sealing password (the configured one when truthy,
  otherwise the generated one); and the handler answers an authenticated request with
  \<^verbatim>\<open>{ status: 'authenticated' }\<close>, setting that cookie to \<^verbatim>\<open>{ credentials, artifacts }\<close>.
\<close>

theorem cookie_handshake:
  fixes request :: request and Iron :: iron
  defines "envelope \<equiv> Obj [(''credentials'', credentials (auth request)),
                             (''artifacts'', artifacts (auth request))]"
  assumes reg: "register m server options drawn = Inr r"
    and merged: "applyToDefaults internals_defaults options = Inr merged"
    and config: "config = get merged ''auth''"
    and cookie: "get config ''type'' = Str ''cookie''"
    and authenticated: "isAuthenticated (auth request)"
    and password: "password =
          (if truthy (get config ''password'')
           then get config ''password''
           else Str (Cryptiles_source m drawn 32))"
  shows "states (reg_server r) = states server @
       [(get config ''cookie'', Obj [
           (''isSecure'', get config ''isSecure''),
           (''isHttpOnly'', get config ''isHttpOnly''),
           (''path'', get config ''path''),
           (''domain'', get config ''domain''),
           (''ttl'', get config ''ttl''),
           (''encoding'', Str ''iron''),
           (''password'', password),
           (''iron'', get config ''iron'')])] \<and>
     (\<exists>route. routes (reg_server r) = routes server @ [route] \<and>
        handler Iron (route_handler_config route) request =
          [Reply (Payload (Obj [(''status'', Str ''authenticated'')])),
           State (get config ''cookie'') envelope])"
proof -
  from cookie have ob: "is_object (get merged ''auth'')"
    unfolding config by (intro get_is_object [of _ "''type''"]) simp
  from register_auth [OF reg merged ob] cookie authenticated ob show ?thesis
    unfolding password envelope_def config
    by (auto simp: handler_def Let_def get_put_other get_put_same)
qed

theorem cookie_handshake_witness:
  "\<exists>r. register
      \<lparr>Joi_convert = \<lparr>parse_number = (\<lambda>s. None), parse_boolean = (\<lambda>s. None), parse_json = (\<lambda>s. None),
         lowercase_of = map (\<lambda>ch. let n = of_char ch :: nat in if 65 \<le> n \<and> n \<le> 90 then char_of (n + 32) else ch)\<rparr>,
       Cryptiles_source = (\<lambda>k n. replicate n (CHR ''r'')),
       Listener_new = (\<lambda>connection settings. \<lparr>stopped = False\<rparr>),
       String_toLowerCase = map (\<lambda>ch. let n = of_char ch :: nat in if 65 \<le> n \<and> n \<le> 90 then char_of (n + 32) else ch)\<rparr>
      \<lparr>connections = [''c1''], states = [], routes = [], exts = [], decorations = []\<rparr>
      (Obj [(''auth'', Obj [(''type'', Str ''cookie''), (''isSecure'', Bool False),
                            (''password'', Str ''some_not_random_password'')])]) 0 = Inr r \<and>
    states (reg_server r) =
       [(Str ''nes'', Obj [
           (''isSecure'', Bool False),
           (''isHttpOnly'', Bool True),
           (''path'', Str ''/''),
           (''domain'', Undefined),
           (''ttl'', Undefined),
           (''encoding'', Str ''iron''),
           (''password'', Str ''some_not_random_password''),
           (''iron'', Undefined)])] \<and>
    (\<exists>route. routes (reg_server r) = [route] \<and>
       handler \<lparr>seal = (\<lambda>ob password options. Inr ''Fe26.2**sealed''), defaults = Null\<rparr>
         (route_handler_config route)
         \<lparr>auth = \<lparr>isAuthenticated = True, credentials = Str ''john'', artifacts = Null\<rparr>\<rparr>
       = [Reply (Payload (Obj [(''status'', Str ''authenticated'')])),
          State (Str ''nes'') (Obj [(''credentials'', Str ''john''), (''artifacts'', Null)])])"
proof -
  let ?m = "\<lparr>Joi_convert = \<lparr>parse_number = (\<lambda>s. None), parse_boolean = (\<lambda>s. None), parse_json = (\<lambda>s. None),
         lowercase_of = map (\<lambda>ch. let n = of_char ch :: nat in if 65 \<le> n \<and> n \<le> 90 then char_of (n + 32) else ch)\<rparr>,
       Cryptiles_source = (\<lambda>k n. replicate n (CHR ''r'')),
       Listener_new = (\<lambda>connection settings. \<lparr>stopped = False\<rparr>),
       String_toLowerCase = map (\<lambda>ch. let n = of_char ch :: nat in if 65 \<le> n \<and> n \<le> 90 then char_of (n + 32) else ch)\<rparr> :: (string, unit) modules"
  let ?server = "\<lparr>connections = [''c1''], states = [], routes = [], exts = [], decorations = []\<rparr> :: string server"
  let ?options = "Obj [(''auth'', Obj [(''type'', Str ''cookie''), (''isSecure'', Bool False),
                            (''password'', Str ''some_not_random_password'')])]"
  let ?request = "\<lparr>auth = \<lparr>isAuthenticated = True, credentials = Str ''john'', artifacts = Null\<rparr>\<rparr>"
  let ?Iron = "\<lparr>seal = (\<lambda>ob password options. Inr ''Fe26.2**sealed''), defaults = Null\<rparr>"
  have "\<not> isl (register ?m ?server ?options 0)"
    by code_simp
  then obtain r where reg: "register ?m ?server ?options 0 = Inr r"
    by (cases "register ?m ?server ?options 0") auto
  obtain merged where merged: "applyToDefaults internals_defaults ?options = Inr merged"
    and config: "get merged ''auth'' = Obj [
        (''endpoint'', Str ''/nes/auth''),
        (''id'', Str ''nes.auth''),
        (''type'', Str ''cookie''),
        (''cookie'', Str ''nes''),
        (''isSecure'', Bool False),
        (''isHttpOnly'', Bool True),
        (''path'', Str ''/''),
        (''index'', Bool False),
        (''timeout'', Num 5000),
        (''maxConnectionsPerUser'', Bool False),
        (''password'', Str ''some_not_random_password'')]"
    by (simp add: applyToDefaults_def internals_defaults_def)
  have cookie: "get (get merged ''auth'') ''type'' = Str ''cookie''"
    and authenticated: "isAuthenticated (auth ?request)"
    by (simp_all add: config)
  from cookie_handshake [OF reg merged refl cookie authenticated refl, of ?Iron]
  show ?thesis
    unfolding config using reg by (intro exI [of _ r]) auto
qed

section \<open>The lifecycle hooks: the claims\<close>

text \<open>The loop of \<open>onPreStart\<close> from index \<open>i\<close> clears the flag of every listener from \<open>i\<close> on.\<close>

lemma onPreStart_loop_eq:
  "onPreStart_loop i listeners =
     take i listeners @ map (\<lambda>l. l\<lparr>stopped := False\<rparr>) (drop i listeners)"
proof (induction i listeners rule: onPreStart_loop.induct)
  case (1 i listeners)
  show ?case
  proof (cases "i < length listeners")
    case True
    have "onPreStart_loop i listeners =
        onPreStart_loop (i + 1) (listeners[i := (listeners ! i)\<lparr>stopped := False\<rparr>])"
      using True by (subst onPreStart_loop.simps) simp
    also have "\<dots> = take (i + 1) (listeners[i := (listeners ! i)\<lparr>stopped := False\<rparr>]) @
        map (\<lambda>l. l\<lparr>stopped := False\<rparr>) (drop (i + 1) (listeners[i := (listeners ! i)\<lparr>stopped := False\<rparr>]))"
      using "1.IH" [OF True] .
    also have "\<dots> = take i listeners @ map (\<lambda>l. l\<lparr>stopped := False\<rparr>) (drop i listeners)"
      using True
      by (simp add: take_Suc_conv_app_nth Cons_nth_drop_Suc [symmetric])
    finally show ?thesis .
  next
    case False
    then show ?thesis
      by (subst onPreStart_loop.simps) simp
  qed
qed




lemma register_exts:
  "register m server options drawn = Inr r \<Longrightarrow>
   (''onPreStart'', OnPreStart) \<in> set (exts (reg_server r)) \<and>
   (''onPreStop'', OnPreStop) \<in> set (exts (reg_server r))"
  by (drule register_Inr) auto

text \<open>
  Claim C9. Registration registers the hook for \<^verbatim>\<open>onPreStart\<close>. Whatever the state of
  the listeners when the server starts (after a stop they are stopped), the hook calls
  \<^verbatim>\<open>extNext\<close> with no error on the listeners with every \<^verbatim>\<open>_stopped\<close> flag set to
  \<^verbatim>\<open>false\<close>, and nothing else about them changed: the flags are cleared before the
  completion is signalled.
\<close>

theorem onPreStart_clears_stopped:
  assumes "register m server options drawn = Inr r"
  shows "(''onPreStart'', OnPreStart) \<in> set (exts (reg_server r)) \<and>
     onPreStart srv extNext listeners = extNext None (map (\<lambda>l. l\<lparr>stopped := False\<rparr>) listeners) \<and>
     list_all (\<lambda>l. \<not> stopped l) (map (\<lambda>l. l\<lparr>stopped := False\<rparr>) listeners)"
  using register_exts [OF assms]
  by (simp add: onPreStart_def onPreStart_loop_eq list_all_iff)

theorem onPreStart_clears_stopped_witness:
  "\<exists>r. register
      \<lparr>Joi_convert = \<lparr>parse_number = (\<lambda>s. None), parse_boolean = (\<lambda>s. None), parse_json = (\<lambda>s. None),
         lowercase_of = map (\<lambda>ch. let n = of_char ch :: nat in if 65 \<le> n \<and> n \<le> 90 then char_of (n + 32) else ch)\<rparr>,
       Cryptiles_source = (\<lambda>k n. replicate n (CHR ''r'')),
       Listener_new = (\<lambda>connection settings. \<lparr>stopped = False\<rparr>),
       String_toLowerCase = map (\<lambda>ch. let n = of_char ch :: nat in if 65 \<le> n \<and> n \<le> 90 then char_of (n + 32) else ch)\<rparr>
      \<lparr>connections = [''c1'', ''c2''], states = [], routes = [], exts = [], decorations = []\<rparr>
      (Obj []) 0 = Inr r \<and>
    (''onPreStart'', OnPreStart) \<in> set (exts (reg_server r)) \<and>
    onPreStart () (\<lambda>err listeners. (err, listeners)) [\<lparr>stopped = True\<rparr>, \<lparr>stopped = False\<rparr>]
      = (None, [\<lparr>stopped = False\<rparr>, \<lparr>stopped = False\<rparr>])"
proof -
  let ?m = "\<lparr>Joi_convert = \<lparr>parse_number = (\<lambda>s. None), parse_boolean = (\<lambda>s. None), parse_json = (\<lambda>s. None),
         lowercase_of = map (\<lambda>ch. let n = of_char ch :: nat in if 65 \<le> n \<and> n \<le> 90 then char_of (n + 32) else ch)\<rparr>,
       Cryptiles_source = (\<lambda>k n. replicate n (CHR ''r'')),
       Listener_new = (\<lambda>connection settings. \<lparr>stopped = False\<rparr>),
       String_toLowerCase = map (\<lambda>ch. let n = of_char ch :: nat in if 65 \<le> n \<and> n \<le> 90 then char_of (n + 32) else ch)\<rparr> :: (string, unit) modules"
  let ?server = "\<lparr>connections = [''c1'', ''c2''], states = [], routes = [], exts = [], decorations = []\<rparr> :: string server"
  have "\<not> isl (register ?m ?server (Obj []) 0)"
    by code_simp
  then obtain r where reg: "register ?m ?server (Obj []) 0 = Inr r"
    by (cases "register ?m ?server (Obj []) 0") auto
  from onPreStart_clears_stopped [OF reg, of "()" "\<lambda>err listeners. (err, listeners)"
      "[\<lparr>stopped = True\<rparr>, \<lparr>stopped = False\<rparr>]"]
  show ?thesis
    using reg by (intro exI [of _ r]) simp
qed




section \<open>The effective headers\<close>

text \<open>
  What the merge leaves under a key: the target's value when the source has no such
  key; for a key of the source (an object has each key once), the value of the source
  unless that is \<^verbatim>\<open>null\<close> or \<^verbatim>\<open>undefined\<close>, an object being merged into an object.
\<close>

lemma merge_other:
  "k \<notin> fst ` set source \<Longrightarrow> map_of (merge target source n a) k = map_of target k"
  by (induction target source n a rule: merge.induct)
     (auto simp: update_conv' split: option.splits jsvalue.splits)

lemma merge_key:
  assumes "distinct (map fst source)" and "map_of source k = Some v"
  shows "map_of (merge target source False False) k =
    (case v of
       Null \<Rightarrow> map_of target k
     | Undefined \<Rightarrow> map_of target k
     | Obj sv \<Rightarrow> (case map_of target k of
           Some (Obj tv) \<Rightarrow> Some (Obj (merge tv sv False False))
         | _ \<Rightarrow> Some (Obj sv))
     | _ \<Rightarrow> Some v)"
  using assms
proof (induction source arbitrary: target)
  case Nil
  then show ?case by simp
next
  case (Cons entry source)
  obtain key x where entry: "entry = (key, x)" by (cases entry)
  show ?case
  proof (cases "key = k")
    case True
    with Cons.prems entry have "x = v" and "k \<notin> fst ` set source" by auto
    with entry True show ?thesis
      by (cases v) (auto simp: merge_other update_conv' split: option.splits jsvalue.splits)
  next
    case False
    with Cons.prems entry have d: "distinct (map fst source)" and m: "map_of source k = Some v"
      by auto
    from False entry show ?thesis
      by (cases x) (auto simp: Cons.IH [OF d m] update_conv' split: option.splits jsvalue.splits)
  qed
qed

lemma lowercase_fields_strings:
  "lowercase_fields lower (map Str names) = Inr (map (\<lambda>s. Str (lower s)) names)"
  by (induction names) simp_all

lemma internals_auth_get:
  "internals_auth source server settings drawn = Inr (server', settings', drawn') \<Longrightarrow>
   k \<noteq> ''auth'' \<Longrightarrow> get settings' k = get settings k"
  by (auto simp: internals_auth_def Let_def get_put_other split: if_splits prod.splits)

text \<open>
  Claim C10. After a successful registration with an options object, the \<^verbatim>\<open>headers\<close>
  of the settings are: for an option that is an array of strings, the array of their
  lowercase forms (what the engine's \<^verbatim>\<open>toLowerCase\<close> gives), element by element; for the option \<^verbatim>\<open>'*'\<close>, \<^verbatim>\<open>'*'\<close>; for no option or
  \<^verbatim>\<open>null\<close> (disabled), \<^verbatim>\<open>null\<close>. The witness registers mixed-case names: the
  schema accepts them and line 94 normalizes them.
\<close>

theorem headers_lowercased:
  assumes reg: "register m server (Obj kvs) drawn = Inr r"
    and keys: "distinct (map fst kvs)"
  shows "(map_of kvs ''headers'' = Some (Arr (map Str names)) \<longrightarrow>
            get (reg_settings r) ''headers'' = Arr (map (\<lambda>s. Str (String_toLowerCase m s)) names)) \<and>
         (map_of kvs ''headers'' = Some (Str ''*'') \<longrightarrow>
            get (reg_settings r) ''headers'' = Str ''*'') \<and>
         (map_of kvs ''headers'' = None \<or> map_of kvs ''headers'' = Some Null \<longrightarrow>
            get (reg_settings r) ''headers'' = Null)"
proof -
  from register_Inr [OF reg] obtain merged settings server' where
    merged: "applyToDefaults internals_defaults (Obj kvs) = Inr merged" and
    low: "lowercase_headers (String_toLowerCase m) merged = Inr settings" and
    run: "internals_auth (Cryptiles_source m) server settings drawn
            = Inr (server', reg_settings r, reg_drawn r)"
    by auto
  have final: "get (reg_settings r) ''headers'' = get settings ''headers''"
    using internals_auth_get [OF run, of "''headers''"] by simp
  from merged have m: "merged = Obj (merge (own_properties internals_defaults) kvs False False)"
    by (simp add: applyToDefaults_def)
  have absent: "map_of kvs ''headers'' = None \<Longrightarrow> get merged ''headers'' = Null"
    unfolding m by (simp add: merge_other map_of_eq_None_iff internals_defaults_def)
  have present: "map_of kvs ''headers'' = Some v \<Longrightarrow> get merged ''headers'' =
      (case v of Null \<Rightarrow> Null | Undefined \<Rightarrow> Null | _ \<Rightarrow> v)" for v
    unfolding m by (cases v) (simp_all add: merge_key [OF keys] internals_defaults_def)
  show ?thesis
  proof (intro conjI impI)
    assume "map_of kvs ''headers'' = Some (Arr (map Str names))"
    from present [OF this] have "get merged ''headers'' = Arr (map Str names)" by simp
    with low have "settings = put merged ''headers'' (Arr (map (\<lambda>s. Str (String_toLowerCase m s)) names))"
      by (simp add: lowercase_headers_def lowercase_fields_strings)
    then show "get (reg_settings r) ''headers'' = Arr (map (\<lambda>s. Str (String_toLowerCase m s)) names)"
      unfolding final by (simp add: m update_conv')
  next
    assume "map_of kvs ''headers'' = Some (Str ''*'')"
    from present [OF this] have "get merged ''headers'' = Str ''*''" by simp
    with low show "get (reg_settings r) ''headers'' = Str ''*''"
      unfolding final by (simp add: lowercase_headers_def)
  next
    assume "map_of kvs ''headers'' = None \<or> map_of kvs ''headers'' = Some Null"
    then have "get merged ''headers'' = Null"
      using absent present [of Null] by auto
    with low show "get (reg_settings r) ''headers'' = Null"
      unfolding final by (simp add: lowercase_headers_def)
  qed
qed


theorem headers_lowercased_witness:
  "(\<exists>r. register
      \<lparr>Joi_convert = \<lparr>parse_number = (\<lambda>s. None), parse_boolean = (\<lambda>s. None), parse_json = (\<lambda>s. None),
         lowercase_of = map (\<lambda>ch. let n = of_char ch :: nat in if 65 \<le> n \<and> n \<le> 90 then char_of (n + 32) else ch)\<rparr>,
       Cryptiles_source = (\<lambda>k n. replicate n (CHR ''r'')),
       Listener_new = (\<lambda>connection settings. \<lparr>stopped = False\<rparr>),
       String_toLowerCase = map (\<lambda>ch. let n = of_char ch :: nat in if 65 \<le> n \<and> n \<le> 90 then char_of (n + 32) else ch)\<rparr>
      \<lparr>connections = [''c1''], states = [], routes = [], exts = [], decorations = []\<rparr>
      (Obj [(''auth'', Bool False), (''headers'', Arr [Str ''Content-Type'', Str ''X-Nes''])]) 0 = Inr r \<and>
    get (reg_settings r) ''headers'' = Arr [Str ''content-type'', Str ''x-nes'']) \<and>
   (\<exists>r. register
      \<lparr>Joi_convert = \<lparr>parse_number = (\<lambda>s. None), parse_boolean = (\<lambda>s. None), parse_json = (\<lambda>s. None),
         lowercase_of = map (\<lambda>ch. let n = of_char ch :: nat in if 65 \<le> n \<and> n \<le> 90 then char_of (n + 32) else ch)\<rparr>,
       Cryptiles_source = (\<lambda>k n. replicate n (CHR ''r'')),
       Listener_new = (\<lambda>connection settings. \<lparr>stopped = False\<rparr>),
       String_toLowerCase = map (\<lambda>ch. let n = of_char ch :: nat in if 65 \<le> n \<and> n \<le> 90 then char_of (n + 32) else ch)\<rparr>
      \<lparr>connections = [''c1''], states = [], routes = [], exts = [], decorations = []\<rparr>
      (Obj [(''auth'', Bool False), (''headers'', Str ''*'')]) 0 = Inr r \<and>
    get (reg_settings r) ''headers'' = Str ''*'') \<and>
   (\<exists>r. register
      \<lparr>Joi_convert = \<lparr>parse_number = (\<lambda>s. None), parse_boolean = (\<lambda>s. None), parse_json = (\<lambda>s. None),
         lowercase_of = map (\<lambda>ch. let n = of_char ch :: nat in if 65 \<le> n \<and> n \<le> 90 then char_of (n + 32) else ch)\<rparr>,
       Cryptiles_source = (\<lambda>k n. replicate n (CHR ''r'')),
       Listener_new = (\<lambda>connection settings. \<lparr>stopped = False\<rparr>),
       String_toLowerCase = map (\<lambda>ch. let n = of_char ch :: nat in if 65 \<le> n \<and> n \<le> 90 then char_of (n + 32) else ch)\<rparr>
      \<lparr>connections = [''c1''], states = [], routes = [], exts = [], decorations = []\<rparr>
      (Obj [(''auth'', Bool False)]) 0 = Inr r \<and>
    get (reg_settings r) ''headers'' = Null)"
proof -
  let ?m = "\<lparr>Joi_convert = \<lparr>parse_number = (\<lambda>s. None), parse_boolean = (\<lambda>s. None), parse_json = (\<lambda>s. None),
         lowercase_of = map (\<lambda>ch. let n = of_char ch :: nat in if 65 \<le> n \<and> n \<le> 90 then char_of (n + 32) else ch)\<rparr>,
       Cryptiles_source = (\<lambda>k n. replicate n (CHR ''r'')),
       Listener_new = (\<lambda>connection settings. \<lparr>stopped = False\<rparr>),
       String_toLowerCase = map (\<lambda>ch. let n = of_char ch :: nat in if 65 \<le> n \<and> n \<le> 90 then char_of (n + 32) else ch)\<rparr> :: (string, unit) modules"
  let ?server = "\<lparr>connections = [''c1''], states = [], routes = [], exts = [], decorations = []\<rparr> :: string server"
  let ?array = "[(''auth'', Bool False), (''headers'', Arr [Str ''Content-Type'', Str ''X-Nes''])]"
  let ?star = "[(''auth'', Bool False), (''headers'', Str ''*'')]"
  let ?none = "[(''auth'', Bool False)]"
  have "\<not> isl (register ?m ?server (Obj ?array) 0)"
    by code_simp
  then obtain r1 where reg1: "register ?m ?server (Obj ?array) 0 = Inr r1"
    by (cases "register ?m ?server (Obj ?array) 0") auto
  have "\<not> isl (register ?m ?server (Obj ?star) 0)"
    by code_simp
  then obtain r2 where reg2: "register ?m ?server (Obj ?star) 0 = Inr r2"
    by (cases "register ?m ?server (Obj ?star) 0") auto
  have "\<not> isl (register ?m ?server (Obj ?none) 0)"
    by code_simp
  then obtain r3 where reg3: "register ?m ?server (Obj ?none) 0 = Inr r3"
    by (cases "register ?m ?server (Obj ?none) 0") auto
  have keys: "distinct (map fst ?array)" "distinct (map fst ?star)" "distinct (map fst ?none)"
    by simp_all
  have lower: "char_of (99 :: nat) = CHR ''c''" "char_of (116 :: nat) = CHR ''t''"
    "char_of (120 :: nat) = CHR ''x''" "char_of (110 :: nat) = CHR ''n''"
    by code_simp+
  from headers_lowercased [OF reg1 keys(1), of "[''Content-Type'', ''X-Nes'']"]
  have "get (reg_settings r1) ''headers'' = Arr [Str ''content-type'', Str ''x-nes'']"
    by (simp add: lower)
  moreover from headers_lowercased [OF reg2 keys(2)]
  have "get (reg_settings r2) ''headers'' = Str ''*''"
    by simp
  moreover from headers_lowercased [OF reg3 keys(3)]
  have "get (reg_settings r3) ''headers'' = Null"
    by simp
  ultimately show ?thesis
    using reg1 reg2 reg3 by blast
qed

section \<open>Configurations the schema refuses\<close>

text \<open>
  The children of an object are refused as soon as one child is: the children before
  it change only the values under their own keys.
\<close>

lemma validate_children_None:
  assumes "map_of children k = Some s"
    and "\<And>parent. validate c s parent (get (Obj target) k) = None"
  shows "validate_children c children target = None"
  using assms
proof (induction children arbitrary: target)
  case Nil
  then show ?case by simp
next
  case (Cons child children)
  obtain key s' where child: "child = (key, s')" by (cases child)
  show ?case
  proof (cases "key = k")
    case True
    with Cons.prems child show ?thesis by simp
  next
    case False
    with Cons.prems child have m: "map_of children k = Some s" by simp
    have "validate_children c children target' = None"
      if "get (Obj target') k = get (Obj target) k" for target'
      using Cons.IH [OF m, of target'] Cons.prems(2) that by simp
    with False child show ?thesis
      by (auto simp: update_conv' split: option.splits)
  qed
qed

text \<open>The heartbeat rule of the schema (lines 78 to 82) on a timeout that is not below the interval.\<close>

lemma heartbeat_refused:
  assumes "get hb ''interval'' = Num i" and "get hb ''timeout'' = Num t" and "i \<le> t"
  shows "validate c (allow [Bool False] (Joi_object_keys [
        (''interval'', required (number_min 1 (integer Joi_number))),
        (''timeout'', required (less_ref ''interval'' (number_min 1 (integer Joi_number))))]))
      parent hb = None"
proof -
  from assms(1) obtain kvs where hb: "hb = Obj kvs" by (cases hb) auto
  with assms show ?thesis
    by (auto simp: validate_def allow_def Joi_object_keys_def Joi_any_def as_object_def
        required_def number_min_def integer_def Joi_number_def less_ref_def update_conv'
        split: option.splits if_splits)
qed

lemma validate_object_keys:
  "validate c (Joi_object_keys children) parent (Obj kvs) =
     (if list_all (\<lambda>key. key \<in> set (map fst children)) (map fst kvs)
      then map_option Obj (validate_children c children kvs)
      else None)"
  by (auto simp: validate_def Joi_object_keys_def Joi_any_def as_object_def split: option.splits)

lemma validate_object_keys_None:
  "validate_children c children kvs = None \<Longrightarrow>
   validate c (Joi_object_keys children) parent (Obj kvs) = None"
  by (simp add: validate_object_keys)

text \<open>
  Claim C2. Whenever the merged configuration has a heartbeat object (heartbeat is not
  disabled) whose \<^verbatim>\<open>timeout\<close> is not below its \<^verbatim>\<open>interval\<close>, \<^verbatim>\<open>Joi.assert\<close> throws and
  \<^verbatim>\<open>register\<close> ends with the validation error: no route, no listener and no hook is set
  up. In the witness the interval alone is configured, equal to the default timeout.
\<close>

theorem heartbeat_timeout_refused:
  assumes merged: "applyToDefaults internals_defaults options = Inr merged"
    and interval: "get (get merged ''heartbeat'') ''interval'' = Num i"
    and timeout: "get (get merged ''heartbeat'') ''timeout'' = Num t"
    and "i \<le> t"
  shows "register m server options drawn = Inl (ValidationError ''Invalid nes configuration'')"
proof -
  from interval obtain kvs where kvs: "merged = Obj kvs" by (cases merged) auto
  have "validate (Joi_convert m) internals_schema Undefined (Obj kvs) = None"
    unfolding internals_schema_def
  proof (rule validate_object_keys_None, rule validate_children_None [where k = "''heartbeat''"])
    show "validate (Joi_convert m) (allow [Bool False] (Joi_object_keys [
        (''interval'', required (number_min 1 (integer Joi_number))),
        (''timeout'', required (less_ref ''interval'' (number_min 1 (integer Joi_number))))]))
      parent (get (Obj kvs) ''heartbeat'') = None" for parent
      using interval timeout \<open>i \<le> t\<close> unfolding kvs by (rule heartbeat_refused)
  qed simp
  with merged kvs show ?thesis
    by (simp add: register_def Joi_assert_def)
qed


theorem heartbeat_timeout_refused_witness:
  "(5000 :: rat) \<le> 5000 \<and>
   register
      \<lparr>Joi_convert = \<lparr>parse_number = (\<lambda>s. None), parse_boolean = (\<lambda>s. None), parse_json = (\<lambda>s. None),
         lowercase_of = map (\<lambda>ch. let n = of_char ch :: nat in if 65 \<le> n \<and> n \<le> 90 then char_of (n + 32) else ch)\<rparr>,
       Cryptiles_source = (\<lambda>k n. replicate n (CHR ''r'')),
       Listener_new = (\<lambda>connection settings. \<lparr>stopped = False\<rparr>),
       String_toLowerCase = map (\<lambda>ch. let n = of_char ch :: nat in if 65 \<le> n \<and> n \<le> 90 then char_of (n + 32) else ch)\<rparr>
      \<lparr>connections = [''c1''], states = [], routes = [], exts = [], decorations = []\<rparr>
      (Obj [(''heartbeat'', Obj [(''interval'', Num 5000)])]) 0
     = Inl (ValidationError ''Invalid nes configuration'')"
proof -
  let ?m = "\<lparr>Joi_convert = \<lparr>parse_number = (\<lambda>s. None), parse_boolean = (\<lambda>s. None), parse_json = (\<lambda>s. None),
         lowercase_of = map (\<lambda>ch. let n = of_char ch :: nat in if 65 \<le> n \<and> n \<le> 90 then char_of (n + 32) else ch)\<rparr>,
       Cryptiles_source = (\<lambda>k n. replicate n (CHR ''r'')),
       Listener_new = (\<lambda>connection settings. \<lparr>stopped = False\<rparr>),
       String_toLowerCase = map (\<lambda>ch. let n = of_char ch :: nat in if 65 \<le> n \<and> n \<le> 90 then char_of (n + 32) else ch)\<rparr> :: (string, unit) modules"
  let ?server = "\<lparr>connections = [''c1''], states = [], routes = [], exts = [], decorations = []\<rparr> :: string server"
  let ?options = "Obj [(''heartbeat'', Obj [(''interval'', Num 5000)])]"
  obtain merged where merged: "applyToDefaults internals_defaults ?options = Inr merged"
    and interval: "get (get merged ''heartbeat'') ''interval'' = Num 5000"
    and timeout: "get (get merged ''heartbeat'') ''timeout'' = Num 5000"
    by (simp add: applyToDefaults_def internals_defaults_def)
  have le: "(5000 :: rat) \<le> 5000" by simp
  from heartbeat_timeout_refused [OF merged interval timeout le, of ?m ?server 0]
  show ?thesis
    by simp
qed

text \<open>
  The same for a child whose rule reads its siblings: it is enough that the children
  before it hand the watched keys on as they were.
\<close>

lemma validate_children_None_watching:
  assumes child: "map_of children k = Some s"
    and watched: "k \<in> K"
    and agree: "\<forall>key\<in>K. get (Obj target) key = get (Obj original) key"
    and keep: "\<And>key s' parent w. (key, s') \<in> set children \<Longrightarrow> key \<in> K \<Longrightarrow> key \<noteq> k \<Longrightarrow>
        validate c s' parent (get (Obj original) key) = Some w \<Longrightarrow>
        w = get (Obj original) key \<or> w = Undefined"
    and fail: "\<And>target'. \<forall>key\<in>K. get (Obj target') key = get (Obj original) key \<Longrightarrow>
        validate c s (Obj target') (get (Obj original) k) = None"
  shows "validate_children c children target = None"
  using child agree keep
proof (induction children arbitrary: target)
  case Nil
  then show ?case by simp
next
  case (Cons entry children)
  obtain key s' where entry: "entry = (key, s')" by (cases entry)
  show ?case
  proof (cases "key = k")
    case True
    with Cons.prems(1) entry have "s' = s" by simp
    moreover have "get (Obj target) k = get (Obj original) k"
      using Cons.prems(2) watched by blast
    ultimately show ?thesis
      using fail [OF Cons.prems(2)] entry True by simp
  next
    case False
    with Cons.prems(1) entry have m: "map_of children k = Some s" by simp
    have keep': "\<And>key s' parent w. (key, s') \<in> set children \<Longrightarrow> key \<in> K \<Longrightarrow> key \<noteq> k \<Longrightarrow>
        validate c s' parent (get (Obj original) key) = Some w \<Longrightarrow>
        w = get (Obj original) key \<or> w = Undefined"
      using Cons.prems(3) by (meson list.set_intros(2))
    show ?thesis
    proof (cases "validate c s' (Obj target) (get (Obj target) key)")
      case None
      with entry show ?thesis by simp
    next
      case (Some w)
      let ?target' = "if w = Undefined then target else AList.update key w target"
      have "\<forall>key'\<in>K. get (Obj ?target') key' = get (Obj original) key'"
      proof
        fix key' assume k': "key' \<in> K"
        show "get (Obj ?target') key' = get (Obj original) key'"
        proof (cases "key' = key")
          case True
          with k' Cons.prems(2) have same: "get (Obj target) key = get (Obj original) key" by blast
          from Cons.prems(3) [of key s' "Obj target" w] entry k' True False Some same
          have "w = get (Obj original) key \<or> w = Undefined" by simp
          with True same show ?thesis
            by (auto simp: update_conv')
        next
          case False
          with k' Cons.prems(2) show ?thesis
            by (auto simp: update_conv')
        qed
      qed
      from Cons.IH [OF m this keep'] Some entry show ?thesis
        by simp
    qed
  qed
qed

text \<open>
  The rule for \<^verbatim>\<open>maxConnectionsPerUser\<close> (line 70) under a parent whose \<^verbatim>\<open>index\<close> is
  \<^verbatim>\<open>false\<close>: only \<^verbatim>\<open>false\<close> passes.
\<close>

lemma maxConnectionsPerUser_refused:
  assumes "get parent ''index'' = Bool False" and "v \<noteq> Bool False" and "v \<noteq> Undefined"
  shows "validate c (when_true ''index'' (valid [Bool False] Joi_any)
             (allow [Bool False] (number_min 1 (integer Joi_number)))) parent v = None"
  using assms
  by (cases v)
     (auto simp: validate_def when_true_def Joi_any_def required_def valid_def allow_def
        Joi_boolean_def concat_def number_min_def integer_def Joi_number_def
        split: option.splits)


lemma validate_required_allow_object_None:
  "validate_children c children kvs = None \<Longrightarrow>
   validate c (required (allow [Bool False] (Joi_object_keys children))) parent (Obj kvs) = None"
  by (auto simp: validate_def required_def allow_def Joi_object_keys_def Joi_any_def as_object_def
      split: option.splits)

lemma index_kept:
  "validate c Joi_boolean parent (Bool b) = Some w \<Longrightarrow> w = Bool b"
  by (auto simp: validate_def Joi_boolean_def Joi_any_def split: if_splits)

lemma auth_refused:
  assumes index: "get (Obj akvs) ''index'' = Bool False"
    and v: "get (Obj akvs) ''maxConnectionsPerUser'' = v" "v \<noteq> Bool False" "v \<noteq> Undefined"
  shows "validate_children c [
        (''endpoint'', required Joi_string),
        (''id'', Joi_string),
        (''type'', required (valid [Str ''cookie'', Str ''token'', Str ''direct''] Joi_any)),
        (''route'', Joi_alternatives [
           Joi_object,
           Joi_string]),
        (''cookie'', required Joi_string),
        (''isSecure'', Joi_boolean),
        (''isHttpOnly'', Joi_boolean),
        (''path'', allow [Null] Joi_string),
        (''domain'', allow [Null] Joi_string),
        (''ttl'', allow [Null] Joi_number),
        (''iron'', Joi_object),
        (''password'', Joi_alternatives [
           Joi_string,
           Joi_binary,
           Joi_object]),
        (''index'', Joi_boolean),
        (''timeout'', allow [Bool False] (number_min 1 (integer Joi_number))),
        (''maxConnectionsPerUser'',
           when_true ''index'' (valid [Bool False] Joi_any)
             (allow [Bool False] (number_min 1 (integer Joi_number))))] akvs = None"
proof (rule validate_children_None_watching
    [where k = "''maxConnectionsPerUser''" and K = "{''index'', ''maxConnectionsPerUser''}"
       and original = akvs])
  show "\<forall>key\<in>{''index'', ''maxConnectionsPerUser''}. get (Obj akvs) key = get (Obj akvs) key"
    by simp
  show "validate c (when_true ''index'' (valid [Bool False] Joi_any)
             (allow [Bool False] (number_min 1 (integer Joi_number))))
          (Obj target') (get (Obj akvs) ''maxConnectionsPerUser'') = None"
    if "\<forall>key\<in>{''index'', ''maxConnectionsPerUser''}. get (Obj target') key = get (Obj akvs) key"
    for target'
    using that index v by (intro maxConnectionsPerUser_refused) simp_all
next
  fix key s' parent w
  assume "(key, s') \<in> set [
        (''endpoint'', required Joi_string),
        (''id'', Joi_string),
        (''type'', required (valid [Str ''cookie'', Str ''token'', Str ''direct''] Joi_any)),
        (''route'', Joi_alternatives [
           Joi_object,
           Joi_string]),
        (''cookie'', required Joi_string),
        (''isSecure'', Joi_boolean),
        (''isHttpOnly'', Joi_boolean),
        (''path'', allow [Null] Joi_string),
        (''domain'', allow [Null] Joi_string),
        (''ttl'', allow [Null] Joi_number),
        (''iron'', Joi_object),
        (''password'', Joi_alternatives [
           Joi_string,
           Joi_binary,
           Joi_object]),
        (''index'', Joi_boolean),
        (''timeout'', allow [Bool False] (number_min 1 (integer Joi_number))),
        (''maxConnectionsPerUser'',
           when_true ''index'' (valid [Bool False] Joi_any)
             (allow [Bool False] (number_min 1 (integer Joi_number))))]"
    and "key \<in> {''index'', ''maxConnectionsPerUser''}" and "key \<noteq> ''maxConnectionsPerUser''"
  then have "key = ''index''" and "s' = Joi_boolean"
    by auto
  moreover assume "validate c s' parent (get (Obj akvs) key) = Some w"
  ultimately show "w = get (Obj akvs) key \<or> w = Undefined"
    using index index_kept [of c parent False w] by simp
qed simp_all

text \<open>The rules of the schema, for evaluating it on concrete settings.\<close>

lemmas joi_defs = validate_def required_def allow_def valid_def Joi_any_def Joi_string_def
  Joi_number_def Joi_boolean_def Joi_binary_def Joi_func_def Joi_object_def Joi_object_keys_def
  Joi_alternatives_def Joi_array_items_def array_min_def number_min_def integer_def less_ref_def
  lowercase_def when_true_def concat_def as_object_def

lemma indexed_settings_accepted:
  "1 \<le> n \<Longrightarrow> n \<le> 9007199254740991 \<Longrightarrow> validate c internals_schema Undefined (Obj [
     (''auth'', Obj [
        (''endpoint'', Str ''/nes/auth''),
        (''id'', Str ''nes.auth''),
        (''type'', Str ''direct''),
        (''cookie'', Str ''nes''),
        (''isSecure'', Bool True),
        (''isHttpOnly'', Bool True),
        (''path'', Str ''/''),
        (''index'', Bool True),
        (''timeout'', Num 5000),
        (''maxConnectionsPerUser'', Num (of_int n))]),
     (''headers'', Null),
     (''payload'', Obj [
        (''maxChunkChars'', Bool False)]),
     (''heartbeat'', Obj [
        (''interval'', Num 15000),
        (''timeout'', Num 5000)]),
     (''maxConnections'', Bool False)]) \<noteq> None"
  by (simp add: internals_schema_def joi_defs)


lemma indexed_accepted:
  assumes "1 \<le> n" and "n \<le> 9007199254740991"
  shows "\<exists>r. register m server
      (Obj [(''auth'', Obj [(''index'', Bool True), (''maxConnectionsPerUser'', Num (of_int n))])])
      drawn = Inr r \<and>
    get (get (reg_settings r) ''auth'') ''maxConnectionsPerUser'' = Num (of_int n)"
proof -
  let ?options = "Obj [(''auth'', Obj [(''index'', Bool True), (''maxConnectionsPerUser'', Num (of_int n))])]"
  let ?merged = "(Obj [
     (''auth'', Obj [
        (''endpoint'', Str ''/nes/auth''),
        (''id'', Str ''nes.auth''),
        (''type'', Str ''direct''),
        (''cookie'', Str ''nes''),
        (''isSecure'', Bool True),
        (''isHttpOnly'', Bool True),
        (''path'', Str ''/''),
        (''index'', Bool True),
        (''timeout'', Num 5000),
        (''maxConnectionsPerUser'', Num (of_int n))]),
     (''headers'', Null),
     (''payload'', Obj [
        (''maxChunkChars'', Bool False)]),
     (''heartbeat'', Obj [
        (''interval'', Num 15000),
        (''timeout'', Num 5000)]),
     (''maxConnections'', Bool False)])"
  have merged: "applyToDefaults internals_defaults ?options = Inr ?merged"
    by (simp add: applyToDefaults_def internals_defaults_def)
  from indexed_settings_accepted [OF assms, of "Joi_convert m"] obtain x where
    valid: "validate (Joi_convert m) internals_schema Undefined ?merged = Some x"
    by blast
  show ?thesis
    unfolding register_def merged
    by (simp add: valid Joi_assert_def lowercase_headers_def internals_auth_def Let_def
        server_ext_def server_decorate_def server_route_def)
qed


lemma unindexed_refused:
  assumes merged: "applyToDefaults internals_defaults options = Inr merged"
    and index: "get (get merged ''auth'') ''index'' = Bool False"
    and v: "get (get merged ''auth'') ''maxConnectionsPerUser'' = v" "v \<noteq> Bool False" "v \<noteq> Undefined"
  shows "register m server options drawn = Inl (ValidationError ''Invalid nes configuration'')"
proof -
  from index obtain kvs where kvs: "merged = Obj kvs" by (cases merged) auto
  from index obtain akvs where akvs: "get (Obj kvs) ''auth'' = Obj akvs"
    unfolding kvs by (cases "get (Obj kvs) ''auth''") auto
  have "validate (Joi_convert m) internals_schema Undefined (Obj kvs) = None"
    unfolding internals_schema_def
    apply (rule validate_object_keys_None)
    apply (rule validate_children_None [where k = "''auth''"])
     apply simp
    apply (simp only: akvs)
    apply (rule validate_required_allow_object_None)
    apply (rule auth_refused [where v = v])
    using index v unfolding kvs akvs by simp_all
  with merged kvs show ?thesis
    by (simp add: register_def Joi_assert_def)
qed

lemma maxConnectionsPerUser_accepted:
  assumes "get parent ''index'' = Bool True" and "1 \<le> n" and "n \<le> 9007199254740991"
  shows "validate c (when_true ''index'' (valid [Bool False] Joi_any)
             (allow [Bool False] (number_min 1 (integer Joi_number)))) parent (Num (of_int n))
         = Some (Num (of_int n))"
  using assms by (simp add: joi_defs)

text \<open>
  Claim C3, with the bound of the safe integers. Whenever the merged configuration has \<^verbatim>\<open>auth.index = false\<close> (set so,
  or by default) and \<^verbatim>\<open>auth.maxConnectionsPerUser\<close> set to a value other than \<^verbatim>\<open>false\<close>,
  \<^verbatim>\<open>register\<close> ends with the validation error. With \<^verbatim>\<open>auth.index = true\<close>, every safe
  integer from 1 on, that is every integer from 1 to \<open>2\<^sup>5\<^sup>3 - 1\<close>, is accepted as
  \<^verbatim>\<open>auth.maxConnectionsPerUser\<close>: the rule of the schema (line 70) accepts it under every
  \<^verbatim>\<open>auth\<close> object whose \<^verbatim>\<open>index\<close> is \<^verbatim>\<open>true\<close>, and the registration with these two options
  returns, with that number in the settings.
\<close>

theorem maxConnectionsPerUser_needs_index:
  "(applyToDefaults internals_defaults options = Inr merged \<and>
    get (get merged ''auth'') ''index'' = Bool False \<and>
    get (get merged ''auth'') ''maxConnectionsPerUser'' = v \<and> v \<noteq> Bool False \<and> v \<noteq> Undefined \<longrightarrow>
      register m server options drawn = Inl (ValidationError ''Invalid nes configuration'')) \<and>
   (get parent ''index'' = Bool True \<and> 1 \<le> n \<and> n \<le> 9007199254740991 \<longrightarrow>
      validate c (when_true ''index'' (valid [Bool False] Joi_any)
          (allow [Bool False] (number_min 1 (integer Joi_number)))) parent (Num (of_int n))
        = Some (Num (of_int n))) \<and>
   (1 \<le> n \<and> n \<le> 9007199254740991 \<longrightarrow>
      (\<exists>r. register m server
          (Obj [(''auth'', Obj [(''index'', Bool True), (''maxConnectionsPerUser'', Num (of_int n))])])
          drawn = Inr r \<and>
        get (get (reg_settings r) ''auth'') ''maxConnectionsPerUser'' = Num (of_int n)))"
  using unindexed_refused [of options merged v m server drawn] indexed_accepted [of n m server drawn]
    maxConnectionsPerUser_accepted [of parent n c]
  by blast

theorem maxConnectionsPerUser_needs_index_witness:
  "register
      \<lparr>Joi_convert = \<lparr>parse_number = (\<lambda>s. None), parse_boolean = (\<lambda>s. None), parse_json = (\<lambda>s. None),
         lowercase_of = map (\<lambda>ch. let n = of_char ch :: nat in if 65 \<le> n \<and> n \<le> 90 then char_of (n + 32) else ch)\<rparr>,
       Cryptiles_source = (\<lambda>k n. replicate n (CHR ''r'')),
       Listener_new = (\<lambda>connection settings. \<lparr>stopped = False\<rparr>),
       String_toLowerCase = map (\<lambda>ch. let n = of_char ch :: nat in if 65 \<le> n \<and> n \<le> 90 then char_of (n + 32) else ch)\<rparr>
      \<lparr>connections = [''c1''], states = [], routes = [], exts = [], decorations = []\<rparr>
      (Obj [(''auth'', Obj [(''maxConnectionsPerUser'', Num 5)])]) 0
     = Inl (ValidationError ''Invalid nes configuration'') \<and>
   validate \<lparr>parse_number = (\<lambda>s. None), parse_boolean = (\<lambda>s. None), parse_json = (\<lambda>s. None),
         lowercase_of = map (\<lambda>ch. let n = of_char ch :: nat in if 65 \<le> n \<and> n \<le> 90 then char_of (n + 32) else ch)\<rparr>
      (when_true ''index'' (valid [Bool False] Joi_any)
         (allow [Bool False] (number_min 1 (integer Joi_number))))
      (Obj [(''index'', Bool True), (''maxConnectionsPerUser'', Num 5)]) (Num 5) = Some (Num 5) \<and>
   (\<exists>r. register
      \<lparr>Joi_convert = \<lparr>parse_number = (\<lambda>s. None), parse_boolean = (\<lambda>s. None), parse_json = (\<lambda>s. None),
         lowercase_of = map (\<lambda>ch. let n = of_char ch :: nat in if 65 \<le> n \<and> n \<le> 90 then char_of (n + 32) else ch)\<rparr>,
       Cryptiles_source = (\<lambda>k n. replicate n (CHR ''r'')),
       Listener_new = (\<lambda>connection settings. \<lparr>stopped = False\<rparr>),
       String_toLowerCase = map (\<lambda>ch. let n = of_char ch :: nat in if 65 \<le> n \<and> n \<le> 90 then char_of (n + 32) else ch)\<rparr>
      \<lparr>connections = [''c1''], states = [], routes = [], exts = [], decorations = []\<rparr>
      (Obj [(''auth'', Obj [(''index'', Bool True), (''maxConnectionsPerUser'', Num 5)])]) 0 = Inr r \<and>
      get (get (reg_settings r) ''auth'') ''maxConnectionsPerUser'' = Num 5)"
proof -
  let ?m = "\<lparr>Joi_convert = \<lparr>parse_number = (\<lambda>s. None), parse_boolean = (\<lambda>s. None), parse_json = (\<lambda>s. None),
         lowercase_of = map (\<lambda>ch. let n = of_char ch :: nat in if 65 \<le> n \<and> n \<le> 90 then char_of (n + 32) else ch)\<rparr>,
       Cryptiles_source = (\<lambda>k n. replicate n (CHR ''r'')),
       Listener_new = (\<lambda>connection settings. \<lparr>stopped = False\<rparr>),
       String_toLowerCase = map (\<lambda>ch. let n = of_char ch :: nat in if 65 \<le> n \<and> n \<le> 90 then char_of (n + 32) else ch)\<rparr> :: (string, unit) modules"
  let ?server = "\<lparr>connections = [''c1''], states = [], routes = [], exts = [], decorations = []\<rparr> :: string server"
  let ?options = "Obj [(''auth'', Obj [(''maxConnectionsPerUser'', Num 5)])]"
  obtain merged where merged: "applyToDefaults internals_defaults ?options = Inr merged"
    and index: "get (get merged ''auth'') ''index'' = Bool False"
    and v: "get (get merged ''auth'') ''maxConnectionsPerUser'' = Num 5"
    by (simp add: applyToDefaults_def internals_defaults_def)
  from maxConnectionsPerUser_needs_index [of ?options merged "Num 5" ?m ?server 0
      "Obj [(''index'', Bool True), (''maxConnectionsPerUser'', Num 5)]" 5
      "\<lparr>parse_number = (\<lambda>s. None), parse_boolean = (\<lambda>s. None), parse_json = (\<lambda>s. None),
         lowercase_of = map (\<lambda>ch. let n = of_char ch :: nat in if 65 \<le> n \<and> n \<le> 90 then char_of (n + 32) else ch)\<rparr>"]
    merged index v
  show ?thesis
    by simp
qed

text \<open>
  The claim as it stands, with every integer from 1 on, fails at \<open>2\<^sup>5\<^sup>3\<close>: it is a whole
  number, but not a safe integer, and the registration with \<^verbatim>\<open>auth.index = true\<close> refuses it.
\<close>

theorem maxConnectionsPerUser_unsafe_integer_counterexample:
  "(9007199254740992 :: rat) = of_int (2 ^ 53) \<and>
   register
      \<lparr>Joi_convert = \<lparr>parse_number = (\<lambda>s. None), parse_boolean = (\<lambda>s. None), parse_json = (\<lambda>s. None),
         lowercase_of = map (\<lambda>ch. let n = of_char ch :: nat in if 65 \<le> n \<and> n \<le> 90 then char_of (n + 32) else ch)\<rparr>,
       Cryptiles_source = (\<lambda>k n. replicate n (CHR ''r'')),
       Listener_new = (\<lambda>connection settings. \<lparr>stopped = False\<rparr>),
       String_toLowerCase = map (\<lambda>ch. let n = of_char ch :: nat in if 65 \<le> n \<and> n \<le> 90 then char_of (n + 32) else ch)\<rparr>
      \<lparr>connections = [''c1''], states = [], routes = [], exts = [], decorations = []\<rparr>
      (Obj [(''auth'', Obj [(''index'', Bool True),
                            (''maxConnectionsPerUser'', Num 9007199254740992)])]) 0
     = Inl (ValidationError ''Invalid nes configuration'')"
proof
  show "(9007199254740992 :: rat) = of_int (2 ^ 53)"
    by simp
  show "register
      \<lparr>Joi_convert = \<lparr>parse_number = (\<lambda>s. None), parse_boolean = (\<lambda>s. None), parse_json = (\<lambda>s. None),
         lowercase_of = map (\<lambda>ch. let n = of_char ch :: nat in if 65 \<le> n \<and> n \<le> 90 then char_of (n + 32) else ch)\<rparr>,
       Cryptiles_source = (\<lambda>k n. replicate n (CHR ''r'')),
       Listener_new = (\<lambda>connection settings. \<lparr>stopped = False\<rparr>),
       String_toLowerCase = map (\<lambda>ch. let n = of_char ch :: nat in if 65 \<le> n \<and> n \<le> 90 then char_of (n + 32) else ch)\<rparr>
      \<lparr>connections = [''c1''], states = [], routes = [], exts = [], decorations = []\<rparr>
      (Obj [(''auth'', Obj [(''index'', Bool True),
                            (''maxConnectionsPerUser'', Num 9007199254740992)])]) 0
     = Inl (ValidationError ''Invalid nes configuration'')"
    by code_simp
qed

end
